theory Spec2Isabelle
  imports Main "HOL-Library.Char_ord" "HOL-Library.List_Lexorder" "HOL-Library.Word"
begin

section \<open>Go strings and decimal digits\<close>

text \<open>
  A Go string is a sequence of bytes; \<open>len\<close> counts bytes.  The type \<open>string\<close>
  (a list of 8-bit characters) is exactly that, and \<open>length\<close> is \<open>len\<close>.
\<close>

definition isDigit :: "char \<Rightarrow> bool" where
  "isDigit c \<longleftrightarrow> CHR ''0'' \<le> c \<and> c \<le> CHR ''9''"

definition digitVal :: "char \<Rightarrow> int" where
  "digitVal c = int (of_char c) - 48"

definition digitChar :: "nat \<Rightarrow> char" where
  "digitChar d = char_of (48 + d)"

definition commaOrPeriod :: "char \<Rightarrow> bool" where
  "commaOrPeriod c \<longleftrightarrow> c = CHR ''.'' \<or> c = CHR '',''"

section \<open>The standard library's time values\<close>

text \<open>
  \<open>time.Time\<close> is an instant together with a location.  Every time of this program
  comes from \<open>time.Parse\<close> (a fixed zone offset, or UTC), from \<open>time.Now\<close> or is the
  zero value, so a time is modelled by its calendar fields in its own location and the
  location's offset in seconds east of UTC.  \<open>absSec\<close> is the number of seconds since
  January 1, year 1, 00:00:00 UTC, the quantity \<open>Before\<close> and \<open>IsZero\<close> compare.
\<close>

record Time =
  Year :: int
  Month :: int
  Day :: int
  Hour :: int
  Minute :: int
  Second :: int
  Nanosecond :: int
  Offset :: int

definition zeroTime :: Time where
  "zeroTime = \<lparr>Year = 1, Month = 1, Day = 1, Hour = 0, Minute = 0, Second = 0,
                Nanosecond = 0, Offset = 0\<rparr>"

definition isLeap :: "int \<Rightarrow> bool" where
  "isLeap y \<longleftrightarrow> y mod 4 = 0 \<and> (y mod 100 \<noteq> 0 \<or> y mod 400 = 0)"

definition daysIn :: "int \<Rightarrow> int \<Rightarrow> int" where
  "daysIn m y =
     (if m = 2 then (if isLeap y then 29 else 28)
      else if m = 4 \<or> m = 6 \<or> m = 9 \<or> m = 11 then 30 else 31)"

definition daysBefore :: "int \<Rightarrow> int" where
  "daysBefore m = [0, 31, 59, 90, 120, 151, 181, 212, 243, 273, 304, 334] ! nat (m - 1)"

definition daysSinceEpoch :: "int \<Rightarrow> int \<Rightarrow> int \<Rightarrow> int" where
  "daysSinceEpoch y m d =
     (let y1 = y - 1
      in 365 * y1 + y1 div 4 - y1 div 100 + y1 div 400
         + daysBefore m + (if isLeap y \<and> 2 < m then 1 else 0) + (d - 1))"

definition absSec :: "Time \<Rightarrow> int" where
  "absSec t = daysSinceEpoch (Year t) (Month t) (Day t) * 86400
              + Hour t * 3600 + Minute t * 60 + Second t - Offset t"

definition absNanos :: "Time \<Rightarrow> int" where
  "absNanos t = absSec t * 1000000000 + Nanosecond t"

definition Time_Before :: "Time \<Rightarrow> Time \<Rightarrow> bool" where
  "Time_Before t u \<longleftrightarrow>
     absSec t < absSec u \<or> (absSec t = absSec u \<and> Nanosecond t < Nanosecond u)"

definition Time_IsZero :: "Time \<Rightarrow> bool" where
  "Time_IsZero t \<longleftrightarrow> absSec t = 0 \<and> Nanosecond t = 0"

section \<open>The standard library's layouts\<close>

text \<open>
  A layout is cut into literal bytes and standard chunks, as \<open>nextStdChunk\<close> does.
  Only the chunks that occur in the layouts of this program are recognised:
  \<open>2006 01 02 15 04 05\<close>, a fractional second (\<open>.000\<close> or \<open>.999\<close>, any number of
  digits, not followed by a digit) and \<open>Z07:00\<close>.  A \<open>Z\<close> that does not start
  \<open>Z07\<close> is a literal byte.
\<close>

datatype chunk =
    Lit char
  | stdLongYear
  | stdZeroMonth
  | stdZeroDay
  | stdHour
  | stdZeroMinute
  | stdZeroSecond
  | stdFracSecond0 nat char
  | stdFracSecond9 nat char
  | stdISO8601ColonTZ

function layoutChunks :: "string \<Rightarrow> chunk list" where
  "layoutChunks l =
     (if l = [] then []
      else if take 4 l = ''2006'' then stdLongYear # layoutChunks (drop 4 l)
      else if take 2 l = ''01'' then stdZeroMonth # layoutChunks (drop 2 l)
      else if take 2 l = ''02'' then stdZeroDay # layoutChunks (drop 2 l)
      else if take 2 l = ''15'' then stdHour # layoutChunks (drop 2 l)
      else if take 2 l = ''04'' then stdZeroMinute # layoutChunks (drop 2 l)
      else if take 2 l = ''05'' then stdZeroSecond # layoutChunks (drop 2 l)
      else if take 6 l = ''Z07:00'' then stdISO8601ColonTZ # layoutChunks (drop 6 l)
      else if commaOrPeriod (hd l) \<and> tl l \<noteq> []
              \<and> (hd (tl l) = CHR ''0'' \<or> hd (tl l) = CHR ''9'')
              \<and> (dropWhile (\<lambda>c. c = hd (tl l)) (tl l) = []
                   \<or> \<not> isDigit (hd (dropWhile (\<lambda>c. c = hd (tl l)) (tl l))))
           then (if hd (tl l) = CHR ''0''
                 then stdFracSecond0 (length (takeWhile (\<lambda>c. c = hd (tl l)) (tl l))) (hd l)
                 else stdFracSecond9 (length (takeWhile (\<lambda>c. c = hd (tl l)) (tl l))) (hd l))
                # layoutChunks (dropWhile (\<lambda>c. c = hd (tl l)) (tl l))
      else Lit (hd l) # layoutChunks (tl l))"
  by pat_completeness auto
termination
proof (relation "measure length")
  fix l :: string
  assume "l \<noteq> []"
  have "length (dropWhile (\<lambda>c. c = hd (tl l)) (tl l)) \<le> length (tl l)"
    by (rule length_dropWhile_le)
  moreover from \<open>l \<noteq> []\<close> have "length (tl l) < length l"
    by (cases l) simp_all
  ultimately show "(dropWhile (\<lambda>c. c = hd (tl l)) (tl l), l) \<in> measure length"
    by simp
qed auto

declare layoutChunks.simps [simp del]

definition RFC3339 :: string where
  "RFC3339 = ''2006-01-02T15:04:05Z07:00''"

definition RFC3339Nano :: string where
  "RFC3339Nano = ''2006-01-02T15:04:05.999999999Z07:00''"

section \<open>Parsing a time (the standard library's \<open>time.Parse\<close>)\<close>

text \<open>
  The general parser of the standard library, for the chunks above.  It reads the value
  chunk by chunk into integer fields, \<open>month\<close> and \<open>day\<close> starting at \<open>-1\<close> and
  \<open>zoneOffset\<close> at \<open>-1\<close> (unset), and checks the day of the month at the end.
  The kind of the error it reports is all that is kept of the error value.
\<close>

datatype ParseError = errBad | errOutOfRange | errExtraText

definition getnum :: "string \<Rightarrow> bool \<Rightarrow> (int \<times> string) option" where
  "getnum s fixed =
     (case s of
        [] \<Rightarrow> None
      | c0 # r0 \<Rightarrow>
          if \<not> isDigit c0 then None
          else (case r0 of
                  [] \<Rightarrow> if fixed then None else Some (digitVal c0, r0)
                | c1 # r1 \<Rightarrow>
                    if \<not> isDigit c1 then (if fixed then None else Some (digitVal c0, r0))
                    else Some (digitVal c0 * 10 + digitVal c1, r1)))"

text \<open>
  \<open>leadingInt\<close> reads the leading digits.  Its overflow error needs more than
  eighteen digits; \<open>atoi\<close> is only called on at most nine bytes here.
\<close>

definition leadingInt :: "string \<Rightarrow> int \<times> string" where
  "leadingInt s =
     (foldl (\<lambda>x c. x * 10 + digitVal c) 0 (takeWhile isDigit s), dropWhile isDigit s)"

definition atoi :: "string \<Rightarrow> int option" where
  "atoi s =
     (let signed = (s \<noteq> [] \<and> (hd s = CHR ''-'' \<or> hd s = CHR ''+''));
          neg = (s \<noteq> [] \<and> hd s = CHR ''-'');
          (q, rem) = leadingInt (if signed then tl s else s)
      in if rem \<noteq> [] then None else Some (if neg then - q else q))"

definition parseNanoseconds :: "string \<Rightarrow> nat \<Rightarrow> ParseError + int" where
  "parseNanoseconds val nbytes =
     (if val = [] \<or> \<not> commaOrPeriod (hd val) then Inl errBad
      else let n = min nbytes 10
           in (case atoi (drop 1 (take n val)) of
                 None \<Rightarrow> Inl errBad
               | Some ns \<Rightarrow>
                   if ns < 0 then Inl errOutOfRange else Inr (ns * 10 ^ (10 - n))))"

record pstate =
  p_value :: string
  p_year :: int
  p_month :: int
  p_day :: int
  p_hour :: int
  p_min :: int
  p_sec :: int
  p_nsec :: int
  p_z :: bool
  p_zoneOffset :: int

definition initState :: "string \<Rightarrow> pstate" where
  "initState val =
     \<lparr>p_value = val, p_year = 0, p_month = - 1, p_day = - 1, p_hour = 0, p_min = 0,
      p_sec = 0, p_nsec = 0, p_z = False, p_zoneOffset = - 1\<rparr>"

fun nextStd :: "chunk list \<Rightarrow> chunk option" where
  "nextStd [] = None"
| "nextStd (Lit c # cs) = nextStd cs"
| "nextStd (std # cs) = Some std"

fun isFracSecond :: "chunk option \<Rightarrow> bool" where
  "isFracSecond (Some (stdFracSecond0 k sep)) = True"
| "isFracSecond (Some (stdFracSecond9 k sep)) = True"
| "isFracSecond other = False"

definition parseFraction :: "nat \<Rightarrow> pstate \<Rightarrow> ParseError + pstate" where
  "parseFraction n st =
     (case parseNanoseconds (p_value st) n of
        Inl e \<Rightarrow> Inl e
      | Inr ns \<Rightarrow> Inr (st\<lparr>p_value := drop n (p_value st), p_nsec := ns\<rparr>))"

definition parseZone :: "pstate \<Rightarrow> ParseError + pstate" where
  "parseZone st =
     (let val = p_value st
      in if val \<noteq> [] \<and> hd val = CHR ''Z'' then Inr (st\<lparr>p_value := tl val, p_z := True\<rparr>)
         else if length val < 6 then Inl errBad
         else if val ! 3 \<noteq> CHR '':'' then Inl errBad
         else (case getnum (take 2 (drop 1 val)) True of
                 None \<Rightarrow> Inl errBad
               | Some (hr, r1) \<Rightarrow>
                   (case getnum (take 2 (drop 4 val)) True of
                      None \<Rightarrow> Inl errBad
                    | Some (mm, r2) \<Rightarrow>
                        if 24 < hr \<or> 60 < mm then Inl errOutOfRange
                        else if hd val = CHR ''+''
                          then Inr (st\<lparr>p_value := drop 6 val,
                                       p_zoneOffset := (hr * 60 + mm) * 60\<rparr>)
                        else if hd val = CHR ''-''
                          then Inr (st\<lparr>p_value := drop 6 val,
                                       p_zoneOffset := - ((hr * 60 + mm) * 60)\<rparr>)
                        else Inl errBad)))"

definition parseSecond :: "chunk list \<Rightarrow> pstate \<Rightarrow> ParseError + pstate" where
  "parseSecond layout st =
     (case getnum (p_value st) True of
        None \<Rightarrow> Inl errBad
      | Some (s, rest) \<Rightarrow>
          if s < 0 \<or> 60 \<le> s then Inl errOutOfRange
          else if 2 \<le> length rest \<and> commaOrPeriod (hd rest) \<and> isDigit (rest ! 1)
                  \<and> \<not> isFracSecond (nextStd layout)
            then parseFraction (1 + length (takeWhile isDigit (tl rest)))
                   (st\<lparr>p_value := rest, p_sec := s\<rparr>)
          else Inr (st\<lparr>p_value := rest, p_sec := s\<rparr>))"

fun parseStd :: "chunk \<Rightarrow> chunk list \<Rightarrow> pstate \<Rightarrow> ParseError + pstate" where
  "parseStd stdLongYear layout st =
     (if length (p_value st) < 4 \<or> \<not> isDigit (hd (p_value st)) then Inl errBad
      else (case atoi (take 4 (p_value st)) of
              None \<Rightarrow> Inl errBad
            | Some y \<Rightarrow> Inr (st\<lparr>p_value := drop 4 (p_value st), p_year := y\<rparr>)))"
| "parseStd stdZeroMonth layout st =
     (case getnum (p_value st) True of
        None \<Rightarrow> Inl errBad
      | Some (m, rest) \<Rightarrow>
          if m \<le> 0 \<or> 12 < m then Inl errOutOfRange
          else Inr (st\<lparr>p_value := rest, p_month := m\<rparr>))"
| "parseStd stdZeroDay layout st =
     (case getnum (p_value st) True of
        None \<Rightarrow> Inl errBad
      | Some (d, rest) \<Rightarrow> Inr (st\<lparr>p_value := rest, p_day := d\<rparr>))"
| "parseStd stdHour layout st =
     (case getnum (p_value st) False of
        None \<Rightarrow> Inl errBad
      | Some (h, rest) \<Rightarrow>
          if h < 0 \<or> 24 \<le> h then Inl errOutOfRange
          else Inr (st\<lparr>p_value := rest, p_hour := h\<rparr>))"
| "parseStd stdZeroMinute layout st =
     (case getnum (p_value st) True of
        None \<Rightarrow> Inl errBad
      | Some (m, rest) \<Rightarrow>
          if m < 0 \<or> 60 \<le> m then Inl errOutOfRange
          else Inr (st\<lparr>p_value := rest, p_min := m\<rparr>))"
| "parseStd stdZeroSecond layout st = parseSecond layout st"
| "parseStd (stdFracSecond0 k sep) layout st =
     (if length (p_value st) < 1 + k then Inl errBad else parseFraction (1 + k) st)"
| "parseStd (stdFracSecond9 k sep) layout st =
     (if length (p_value st) < 2 \<or> \<not> commaOrPeriod (hd (p_value st))
         \<or> \<not> isDigit (p_value st ! 1)
      then Inr st
      else parseFraction (1 + length (takeWhile isDigit (tl (p_value st)))) st)"
| "parseStd stdISO8601ColonTZ layout st = parseZone st"
| "parseStd (Lit c) layout st = Inr st"

text \<open>
  The end of the layout: no text may be left, a missing month or day is 1, the day must
  exist in its month, and the location is UTC for a \<open>Z\<close>, the parsed offset otherwise,
  UTC when the layout has no zone.
\<close>

definition parseFinish :: "pstate \<Rightarrow> ParseError + Time" where
  "parseFinish st =
     (if p_value st \<noteq> [] then Inl errExtraText
      else let month = (if p_month st < 0 then 1 else p_month st);
               day = (if p_day st < 0 then 1 else p_day st)
           in if day < 1 \<or> daysIn month (p_year st) < day then Inl errOutOfRange
              else Inr \<lparr>Year = p_year st, Month = month, Day = day, Hour = p_hour st,
                        Minute = p_min st, Second = p_sec st, Nanosecond = p_nsec st,
                        Offset = (if p_z st then 0
                                  else if p_zoneOffset st \<noteq> - 1 then p_zoneOffset st
                                  else 0)\<rparr>)"

text \<open>
  The loop over the layout.  A literal space of the layout stands for any run of spaces
  of the value (none only at the end of the value), and the spaces that follow it in the
  layout are dropped with it: the flag says that the previous chunk was such a space.
\<close>

fun parseChunks :: "bool \<Rightarrow> chunk list \<Rightarrow> pstate \<Rightarrow> ParseError + Time" where
  "parseChunks sp [] st = parseFinish st"
| "parseChunks sp (Lit c # layout) st =
     (if c = CHR '' '' then
        (if sp then parseChunks True layout st
         else if p_value st \<noteq> [] \<and> hd (p_value st) \<noteq> CHR '' '' then Inl errBad
         else parseChunks True layout
                (st\<lparr>p_value := dropWhile (\<lambda>k. k = CHR '' '') (p_value st)\<rparr>))
      else if p_value st = [] \<or> hd (p_value st) \<noteq> c then Inl errBad
      else parseChunks False layout (st\<lparr>p_value := tl (p_value st)\<rparr>))"
| "parseChunks sp (std # layout) st =
     (case parseStd std layout st of
        Inl e \<Rightarrow> Inl e
      | Inr st' \<Rightarrow> parseChunks False layout st')"

definition time_Parse :: "string \<Rightarrow> string \<Rightarrow> ParseError + Time" where
  "time_Parse layout val = parseChunks False (layoutChunks layout) (initState val)"

section \<open>Formatting a time (the standard library's \<open>Time.Format\<close>)\<close>

function digits :: "nat \<Rightarrow> string" where
  "digits n = (if n < 10 then [digitChar n] else digits (n div 10) @ [digitChar (n mod 10)])"
  by pat_completeness auto
termination
  by (relation "measure id") auto

declare digits.simps [simp del]

text \<open>\<open>appendInt\<close> writes the decimal form of \<open>x\<close>, padded with zeros to the width.\<close>

definition appendInt :: "int \<Rightarrow> nat \<Rightarrow> string" where
  "appendInt x width =
     (let ds = digits (nat \<bar>x\<bar>)
      in (if x < 0 then ''-'' else []) @ replicate (width - length ds) (CHR ''0'') @ ds)"

text \<open>
  \<open>appendNano\<close> writes the separator and the first \<open>n\<close> of the nine digits of the
  nanoseconds; for a \<open>.999\<close> chunk (\<open>trim\<close>) it writes nothing when the nanoseconds
  are zero and drops the trailing zeros otherwise.
\<close>

definition appendNano :: "int \<Rightarrow> nat \<Rightarrow> char \<Rightarrow> bool \<Rightarrow> string" where
  "appendNano nanosec n sep trim =
     (if trim \<and> (n = 0 \<or> nanosec = 0) then []
      else let b = sep # take n (appendInt nanosec 9);
               b0 = rev (dropWhile (\<lambda>c. c = CHR ''0'') (rev b))
           in if \<not> trim then b
              else if b0 \<noteq> [] \<and> commaOrPeriod (last b0) then butlast b0 else b0)"

text \<open>
  The zone of \<open>Z07:00\<close>: \<open>Z\<close> for the offset zero, otherwise the sign and the hours
  and minutes of the offset, whose seconds are cut off towards zero.
\<close>

definition appendZone :: "int \<Rightarrow> string" where
  "appendZone offset =
     (if offset = 0 then ''Z''
      else let zone = (if offset < 0 then - ((- offset) div 60) else offset div 60)
           in (if zone < 0 then ''-'' else ''+'')
              @ appendInt (\<bar>zone\<bar> div 60) 2 @ '':'' @ appendInt (\<bar>zone\<bar> mod 60) 2)"

fun formatStd :: "chunk \<Rightarrow> Time \<Rightarrow> string" where
  "formatStd (Lit c) t = [c]"
| "formatStd stdLongYear t = appendInt (Year t) 4"
| "formatStd stdZeroMonth t = appendInt (Month t) 2"
| "formatStd stdZeroDay t = appendInt (Day t) 2"
| "formatStd stdHour t = appendInt (Hour t) 2"
| "formatStd stdZeroMinute t = appendInt (Minute t) 2"
| "formatStd stdZeroSecond t = appendInt (Second t) 2"
| "formatStd (stdFracSecond0 n sep) t = appendNano (Nanosecond t) n sep False"
| "formatStd (stdFracSecond9 n sep) t = appendNano (Nanosecond t) n sep True"
| "formatStd stdISO8601ColonTZ t = appendZone (Offset t)"

definition time_Format :: "string \<Rightarrow> Time \<Rightarrow> string" where
  "time_Format layout t = concat (map (\<lambda>c. formatStd c t) (layoutChunks layout))"

text \<open>
  \<open>Time.MarshalJSON\<close> writes the time with \<open>RFC3339Nano\<close> and fails when the result is
  not a timestamp of RFC 3339: a year that is not four digits wide, or a zone of 24 hours
  or more.  The string is the content of the JSON string, without its quotes.
\<close>

definition Time_MarshalJSON :: "Time \<Rightarrow> string option" where
  "Time_MarshalJSON t =
     (let b = time_Format RFC3339Nano t
      in if b ! 4 \<noteq> CHR ''-'' then None
         else if last b \<noteq> CHR ''Z''
                 \<and> (isDigit (b ! (length b - 6))
                      \<or> 24 \<le> 10 * digitVal (b ! (length b - 5)) + digitVal (b ! (length b - 4)))
           then None
         else Some b)"

section \<open>utils: \<open>ParseTimestamp\<close>\<close>

definition formats :: "string list" where
  "formats =
     [RFC3339,
      RFC3339Nano,
      ''2006-01-02T15:04:05'',
      ''2006-01-02 15:04:05'',
      ''2006-01-02T15:04:05.000Z'',
      ''2006-01-02T15:04:05.000000Z'']"

text \<open>
  The function returns a pair, as in Go: the time and the error, \<open>None\<close> for \<open>nil\<close>.
  The loop keeps the error of the last format tried and returns it with the zero time
  when no format parses.
\<close>

fun ParseTimestamp_loop ::
  "string list \<Rightarrow> string \<Rightarrow> ParseError option \<Rightarrow> Time \<times> ParseError option" where
  "ParseTimestamp_loop [] timestamp lastErr = (zeroTime, lastErr)"
| "ParseTimestamp_loop (format # rest) timestamp lastErr =
     (case time_Parse format timestamp of
        Inr t \<Rightarrow> (t, None)
      | Inl err \<Rightarrow> ParseTimestamp_loop rest timestamp (Some err))"

definition ParseTimestamp :: "string \<Rightarrow> Time \<times> ParseError option" where
  "ParseTimestamp timestamp = ParseTimestamp_loop formats timestamp None"

section \<open>models: the request, the event and \<open>IsValid\<close>\<close>

record CreateEventRequest =
  req_Title :: string
  req_Description :: "string option"
  req_StartTime :: string
  req_EndTime :: string

datatype ValidationError = ValidationError (Message: string)

definition MaxTitleLength :: nat where
  "MaxTitleLength = 100"

definition TitleTooLong :: ValidationError where
  "TitleTooLong = ValidationError ''title exceeds maximum length of 100 characters''"

definition TitleEmpty :: ValidationError where
  "TitleEmpty = ValidationError ''title should not be empty''"

definition EndTimeBeforeStart :: ValidationError where
  "EndTimeBeforeStart = ValidationError ''end_time should be after start_time''"

definition InvalidTimeFormat :: ValidationError where
  "InvalidTimeFormat = ValidationError ''invalid time format, expected ISO 8601 format''"

definition Error :: "ValidationError \<Rightarrow> string" where
  "Error m = Message m"

definition IsValid :: "CreateEventRequest \<Rightarrow> ValidationError option" where
  "IsValid event =
     (if req_Title event = [] then Some TitleEmpty
      else if MaxTitleLength < length (req_Title event) then Some TitleTooLong
      else (case ParseTimestamp (req_StartTime event) of
              (startTime, Some err) \<Rightarrow> Some InvalidTimeFormat
            | (startTime, None) \<Rightarrow>
                (case ParseTimestamp (req_EndTime event) of
                   (endTime, Some err) \<Rightarrow> Some InvalidTimeFormat
                 | (endTime, None) \<Rightarrow>
                     if Time_Before endTime startTime then Some EndTimeBeforeStart
                     else None)))"

text \<open>
  \<open>uuid.UUID\<close> is an array of sixteen bytes; it is modelled as a list of bytes, of
  length sixteen for every identifier of the program.
\<close>

type_synonym UUID = "8 word list"

definition uuid_Nil :: UUID where
  "uuid_Nil = replicate 16 0"

record Event =
  ev_ID :: UUID
  ev_Title :: string
  ev_Description :: "string option"
  ev_StartTime :: Time
  ev_EndTime :: Time
  ev_CreatedAt :: Time

section \<open>Identifiers (the \<open>uuid\<close> package)\<close>

definition hexdigit :: "nat \<Rightarrow> char" where
  "hexdigit n = ''0123456789abcdef'' ! n"

definition hex_Encode :: "8 word list \<Rightarrow> string" where
  "hex_Encode bs = concat (map (\<lambda>b. [hexdigit (unat b div 16), hexdigit (unat b mod 16)]) bs)"

definition uuid_String :: "UUID \<Rightarrow> string" where
  "uuid_String u =
     hex_Encode (take 4 u) @ ''-'' @ hex_Encode (take 2 (drop 4 u)) @ ''-''
     @ hex_Encode (take 2 (drop 6 u)) @ ''-'' @ hex_Encode (take 2 (drop 8 u)) @ ''-''
     @ hex_Encode (drop 10 u)"

definition xvalue :: "char \<Rightarrow> nat option" where
  "xvalue c =
     (if CHR ''0'' \<le> c \<and> c \<le> CHR ''9'' then Some (of_char c - 48)
      else if CHR ''A'' \<le> c \<and> c \<le> CHR ''F'' then Some (of_char c - 55)
      else if CHR ''a'' \<le> c \<and> c \<le> CHR ''f'' then Some (of_char c - 87)
      else None)"

definition xtob :: "char \<Rightarrow> char \<Rightarrow> 8 word option" where
  "xtob x1 x2 =
     (case (xvalue x1, xvalue x2) of
        (Some b1, Some b2) \<Rightarrow> Some (of_nat (b1 * 16 + b2))
      | other \<Rightarrow> None)"

definition asciiLower :: "char \<Rightarrow> char" where
  "asciiLower c = (if CHR ''A'' \<le> c \<and> c \<le> CHR ''Z'' then char_of (of_char c + (32::nat)) else c)"

definition uuid_Parse36 :: "string \<Rightarrow> UUID option" where
  "uuid_Parse36 s =
     (if s ! 8 \<noteq> CHR ''-'' \<or> s ! 13 \<noteq> CHR ''-'' \<or> s ! 18 \<noteq> CHR ''-'' \<or> s ! 23 \<noteq> CHR ''-''
      then None
      else those (map (\<lambda>x. xtob (s ! x) (s ! (x + 1)))
                      [0, 2, 4, 6, 9, 11, 14, 16, 19, 21, 24, 26, 28, 30, 32, 34]))"

text \<open>
  The four accepted forms: the plain one of 36 bytes, the one with the \<open>urn:uuid:\<close>
  prefix (compared without regard to case), the one in braces (the braces themselves are
  not looked at) and the 32 hexadecimal digits without dashes.
\<close>

definition uuid_Parse :: "string \<Rightarrow> UUID option" where
  "uuid_Parse s =
     (if length s = 36 then uuid_Parse36 s
      else if length s = 36 + 9 then
        (if map asciiLower (take 9 s) = ''urn:uuid:'' then uuid_Parse36 (drop 9 s) else None)
      else if length s = 36 + 2 then uuid_Parse36 (drop 1 s)
      else if length s = 32 then
        those (map (\<lambda>i. xtob (s ! (i * 2)) (s ! (i * 2 + 1))) [0..<16])
      else None)"

section \<open>The table \<open>events\<close>\<close>

text \<open>
  The database is the one table of \<open>CreateTable\<close>, its rows in the order of insertion.
  All columns hold text (the timestamps are bound as strings), \<open>description\<close> may be
  \<open>NULL\<close>.  The engine is modelled by what its statements do to the table and by its
  two constraints, the primary key on \<open>id\<close> and the check on the title; failures of
  the engine itself (the file, the connection, the context) are not modelled.
\<close>

record Row =
  row_id :: string
  row_title :: string
  row_description :: "string option"
  row_start_time :: string
  row_end_time :: string
  row_created_at :: string

type_synonym Database = "Row list"

datatype SqlError = ConstraintCheck | ConstraintPrimaryKey

text \<open>
  The SQL function \<open>length\<close> on text counts the characters before the first zero byte:
  the bytes, without the continuation bytes (\<open>0x80\<close> to \<open>0xBF\<close>) that follow a byte of
  \<open>0xC0\<close> or more.  The flag says that the previous byte belonged to such a character.
\<close>

fun sql_length_from :: "bool \<Rightarrow> string \<Rightarrow> nat" where
  "sql_length_from multi [] = 0"
| "sql_length_from multi (c # z) =
     (if of_char c = (0::nat) then 0
      else if multi \<and> (128::nat) \<le> of_char c \<and> of_char c < (192::nat)
        then sql_length_from True z
      else Suc (sql_length_from ((192::nat) \<le> of_char c) z))"

definition sql_length :: "string \<Rightarrow> nat" where
  "sql_length s = sql_length_from False s"

definition check_title :: "string \<Rightarrow> bool" where
  "check_title title \<longleftrightarrow> sql_length title \<le> 100"

text \<open>\<open>INSERT INTO events ... VALUES (...)\<close>: the check first, then the primary key.\<close>

definition exec_insert :: "Database \<Rightarrow> Row \<Rightarrow> SqlError + Database" where
  "exec_insert db r =
     (if \<not> check_title (row_title r) then Inl ConstraintCheck
      else if row_id r \<in> set (map row_id db) then Inl ConstraintPrimaryKey
      else Inr (db @ [r]))"

text \<open>\<open>SELECT ... FROM events WHERE id = ?\<close>, read with \<open>QueryRow\<close>: the first row.\<close>

definition query_by_id :: "Database \<Rightarrow> string \<Rightarrow> Row option" where
  "query_by_id db ident = find (\<lambda>r. row_id r = ident) db"

text \<open>
  \<open>SELECT ... FROM events ORDER BY start_time ASC\<close>.  The column holds text, which the
  engine compares byte by byte, a proper prefix first.  SQL leaves the order of rows with
  equal keys open; the model keeps them in the order of the table.
\<close>

definition query_all :: "Database \<Rightarrow> Row list" where
  "query_all db = sort_key row_start_time db"

text \<open>
  \<open>UPDATE events SET ... WHERE id = ?\<close>, with the number of rows changed.  The check is
  made on the rows that match only.
\<close>

definition exec_update ::
  "Database \<Rightarrow> string \<Rightarrow> string option \<Rightarrow> string \<Rightarrow> string \<Rightarrow> string
     \<Rightarrow> SqlError + (Database \<times> nat)" where
  "exec_update db title description start_time end_time ident =
     (if (\<exists>r \<in> set db. row_id r = ident) \<and> \<not> check_title title then Inl ConstraintCheck
      else Inr (map (\<lambda>r. if row_id r = ident
                          then r\<lparr>row_title := title, row_description := description,
                                 row_start_time := start_time, row_end_time := end_time\<rparr>
                          else r) db,
                length (filter (\<lambda>r. row_id r = ident) db)))"

text \<open>\<open>DELETE FROM events WHERE id = ?\<close>, with the number of rows deleted.\<close>

definition exec_delete :: "Database \<Rightarrow> string \<Rightarrow> Database \<times> nat" where
  "exec_delete db ident =
     (filter (\<lambda>r. row_id r \<noteq> ident) db, length (filter (\<lambda>r. row_id r = ident) db))"

section \<open>repository\<close>

text \<open>
  The errors of the repository, by the message they are made with: \<open>failed to insert
  event\<close>, \<open>event not found\<close>, \<open>failed to parse UUID\<close>, \<open>failed to parse
  start_time\<close>, \<open>failed to parse end_time\<close>, \<open>failed to parse created_at\<close> and
  \<open>failed to update event\<close>, each with the error it wraps.
\<close>

datatype RepoError =
    FailedToInsert SqlError
  | EventNotFound
  | FailedToParseUUID
  | FailedToParseStartTime ParseError
  | FailedToParseEndTime ParseError
  | FailedToParseCreatedAt ParseError
  | FailedToUpdate SqlError

text \<open>
  \<open>InsertEvent\<close> changes the event it is given (the identifier and the creation
  time), so the model returns the event as well.  \<open>newID\<close> is what \<open>uuid.New()\<close>
  returns and \<open>now\<close> what \<open>time.Now()\<close> returns.
\<close>

definition eventRow :: "Event \<Rightarrow> Row" where
  "eventRow event =
     \<lparr>row_id = uuid_String (ev_ID event),
      row_title = ev_Title event,
      row_description = ev_Description event,
      row_start_time = time_Format RFC3339 (ev_StartTime event),
      row_end_time = time_Format RFC3339 (ev_EndTime event),
      row_created_at = time_Format RFC3339 (ev_CreatedAt event)\<rparr>"

definition InsertEvent ::
  "UUID \<Rightarrow> Time \<Rightarrow> Database \<Rightarrow> Event \<Rightarrow> RepoError option \<times> Event \<times> Database" where
  "InsertEvent newID now db event =
     (let event1 = (if ev_ID event = uuid_Nil then event\<lparr>ev_ID := newID\<rparr> else event);
          event2 = (if Time_IsZero (ev_CreatedAt event1) then event1\<lparr>ev_CreatedAt := now\<rparr>
                    else event1)
      in (case exec_insert db (eventRow event2) of
            Inl err \<Rightarrow> (Some (FailedToInsert err), event2, db)
          | Inr db' \<Rightarrow> (None, event2, db')))"

text \<open>
  Reading a row back, as \<open>GetEventByID\<close> and the loop of \<open>GetAllEvents\<close> both do
  after \<open>Scan\<close>: the identifier and the three timestamps are parsed, in this order.
\<close>

definition scanEvent :: "Row \<Rightarrow> RepoError + Event" where
  "scanEvent r =
     (case uuid_Parse (row_id r) of
        None \<Rightarrow> Inl FailedToParseUUID
      | Some ident \<Rightarrow>
          (case time_Parse RFC3339 (row_start_time r) of
             Inl err \<Rightarrow> Inl (FailedToParseStartTime err)
           | Inr startTime \<Rightarrow>
               (case time_Parse RFC3339 (row_end_time r) of
                  Inl err \<Rightarrow> Inl (FailedToParseEndTime err)
                | Inr endTime \<Rightarrow>
                    (case time_Parse RFC3339 (row_created_at r) of
                       Inl err \<Rightarrow> Inl (FailedToParseCreatedAt err)
                     | Inr createdAt \<Rightarrow>
                         Inr \<lparr>ev_ID = ident, ev_Title = row_title r,
                              ev_Description = row_description r,
                              ev_StartTime = startTime, ev_EndTime = endTime,
                              ev_CreatedAt = createdAt\<rparr>))))"

definition GetEventByID :: "Database \<Rightarrow> UUID \<Rightarrow> RepoError + Event" where
  "GetEventByID db ident =
     (case query_by_id db (uuid_String ident) of
        None \<Rightarrow> Inl EventNotFound
      | Some r \<Rightarrow> scanEvent r)"

text \<open>
  The result of \<open>GetAllEvents\<close> is a slice that starts as \<open>nil\<close> (\<open>None\<close>) and is
  made by \<open>append\<close>: it is still \<open>nil\<close> when there is no row.
\<close>

fun GetAllEvents_loop :: "Row list \<Rightarrow> Event list option \<Rightarrow> RepoError + Event list option" where
  "GetAllEvents_loop [] events = Inr events"
| "GetAllEvents_loop (r # rows) events =
     (case scanEvent r of
        Inl err \<Rightarrow> Inl err
      | Inr event \<Rightarrow>
          GetAllEvents_loop rows
            (Some (case events of None \<Rightarrow> [event] | Some es \<Rightarrow> es @ [event])))"

definition GetAllEvents :: "Database \<Rightarrow> RepoError + Event list option" where
  "GetAllEvents db = GetAllEvents_loop (query_all db) None"

definition UpdateEvent :: "Database \<Rightarrow> Event \<Rightarrow> RepoError option \<times> Database" where
  "UpdateEvent db event =
     (case exec_update db (ev_Title event) (ev_Description event)
             (time_Format RFC3339 (ev_StartTime event))
             (time_Format RFC3339 (ev_EndTime event))
             (uuid_String (ev_ID event)) of
        Inl err \<Rightarrow> (Some (FailedToUpdate err), db)
      | Inr (db', rowsAffected) \<Rightarrow>
          if rowsAffected = 0 then (Some EventNotFound, db') else (None, db'))"

definition DeleteEvent :: "Database \<Rightarrow> UUID \<Rightarrow> RepoError option \<times> Database" where
  "DeleteEvent db ident =
     (case exec_delete db (uuid_String ident) of
        (db', rowsAffected) \<Rightarrow>
          if rowsAffected = 0 then (Some EventNotFound, db') else (None, db'))"

section \<open>service: the handlers\<close>

text \<open>
  The JSON of an event, by the tags of its fields: the identifier by \<open>String\<close>, the
  times by \<open>MarshalJSON\<close>, the description left out when it is \<open>nil\<close>.  The strings are
  the values of the JSON strings.  Encoding fails when a time cannot be marshalled.
\<close>

record EventJSON =
  json_id :: string
  json_title :: string
  json_description :: "string option"
  json_start_time :: string
  json_end_time :: string
  json_created_at :: string

definition Event_MarshalJSON :: "Event \<Rightarrow> EventJSON option" where
  "Event_MarshalJSON event =
     (case (Time_MarshalJSON (ev_StartTime event), Time_MarshalJSON (ev_EndTime event),
            Time_MarshalJSON (ev_CreatedAt event)) of
        (Some s, Some e, Some c) \<Rightarrow>
          Some \<lparr>json_id = uuid_String (ev_ID event), json_title = ev_Title event,
                json_description = ev_Description event, json_start_time = s,
                json_end_time = e, json_created_at = c\<rparr>
      | other \<Rightarrow> None)"

datatype Body =
    JSONEvent EventJSON
  | JSONArray "EventJSON list"
  | JSONNull
  | JSONError string
  | JSONMessage string

datatype Response = Response nat Body

text \<open>
  \<open>c.JSON\<close>: the status with the encoded value; when encoding fails nothing has been
  written and the framework answers 500.
\<close>

definition c_JSON_event :: "nat \<Rightarrow> Event \<Rightarrow> Response" where
  "c_JSON_event code event =
     (case Event_MarshalJSON event of
        None \<Rightarrow> Response 500 (JSONMessage ''Internal Server Error'')
      | Some j \<Rightarrow> Response code (JSONEvent j))"

definition c_JSON_events :: "nat \<Rightarrow> Event list option \<Rightarrow> Response" where
  "c_JSON_events code events =
     (case events of
        None \<Rightarrow> Response code JSONNull
      | Some es \<Rightarrow>
          (case those (map Event_MarshalJSON es) of
             None \<Rightarrow> Response 500 (JSONMessage ''Internal Server Error'')
           | Some js \<Rightarrow> Response code (JSONArray js)))"

text \<open>
  The event that \<open>createEvent\<close> builds from a request.  The errors of the two calls of
  \<open>ParseTimestamp\<close> are dropped, the identifier and the creation time are left at
  their zero values.
\<close>

definition createEvent_event :: "CreateEventRequest \<Rightarrow> Event" where
  "createEvent_event req =
     (let startTime = fst (ParseTimestamp (req_StartTime req));
          endTime = fst (ParseTimestamp (req_EndTime req))
      in \<lparr>ev_ID = uuid_Nil, ev_Title = req_Title req, ev_Description = req_Description req,
          ev_StartTime = startTime, ev_EndTime = endTime, ev_CreatedAt = zeroTime\<rparr>)"

text \<open>\<open>createEvent\<close>, from the request that \<open>Bind\<close> has read.\<close>

definition createEvent ::
  "UUID \<Rightarrow> Time \<Rightarrow> Database \<Rightarrow> CreateEventRequest \<Rightarrow> Response \<times> Database" where
  "createEvent newID now db req =
     (case IsValid req of
        Some err \<Rightarrow> (Response 400 (JSONError (Error err)), db)
      | None \<Rightarrow>
          (case InsertEvent newID now db (createEvent_event req) of
             (Some err, event, db') \<Rightarrow> (Response 500 (JSONError ''Failed to create event''), db')
           | (None, event, db') \<Rightarrow> (c_JSON_event 201 event, db')))"

definition listEvents :: "Database \<Rightarrow> Response" where
  "listEvents db =
     (case GetAllEvents db of
        Inl err \<Rightarrow> Response 500 (JSONError ''Failed to retrieve events'')
      | Inr events \<Rightarrow>
          c_JSON_events 200 (case events of None \<Rightarrow> Some [] | Some es \<Rightarrow> Some es))"

text \<open>
  \<open>getEventByID\<close> compares the message of the error with \<open>event not found\<close>; of the
  errors of \<open>GetEventByID\<close> only \<open>EventNotFound\<close> has this message.
\<close>

definition getEventByID :: "Database \<Rightarrow> string \<Rightarrow> Response" where
  "getEventByID db idParam =
     (case uuid_Parse idParam of
        None \<Rightarrow> Response 400 (JSONError ''Invalid UUID format'')
      | Some ident \<Rightarrow>
          (case GetEventByID db ident of
             Inl err \<Rightarrow>
               if err = EventNotFound then Response 404 (JSONError ''Event not found'')
               else Response 500 (JSONError ''Failed to retrieve event'')
           | Inr event \<Rightarrow> c_JSON_event 200 event))"

section \<open>Times with fields in range\<close>

text \<open>
  The fields of a time that \<open>time.Parse\<close> returns are in range: a year of four
  digits, a day that exists in its month, and a zone of whole minutes, of at most 24
  hours and 60 minutes.  \<open>parseInv\<close> is the same for the fields of the parser while
  it runs.
\<close>

definition validTime :: "Time \<Rightarrow> bool" where
  "validTime t \<longleftrightarrow>
     0 \<le> Year t \<and> Year t < 10000 \<and> 1 \<le> Month t \<and> Month t \<le> 12
     \<and> 1 \<le> Day t \<and> Day t \<le> daysIn (Month t) (Year t)
     \<and> 0 \<le> Hour t \<and> Hour t < 24 \<and> 0 \<le> Minute t \<and> Minute t < 60
     \<and> 0 \<le> Second t \<and> Second t < 60
     \<and> 0 \<le> Nanosecond t \<and> Nanosecond t < 1000000000
     \<and> Offset t mod 60 = 0 \<and> \<bar>Offset t\<bar> \<le> 90000"

definition parseInv :: "pstate \<Rightarrow> bool" where
  "parseInv st \<longleftrightarrow>
     0 \<le> p_year st \<and> p_year st < 10000 \<and> (p_month st = - 1 \<or> 1 \<le> p_month st \<and> p_month st \<le> 12)
     \<and> 0 \<le> p_hour st \<and> p_hour st < 24 \<and> 0 \<le> p_min st \<and> p_min st < 60
     \<and> 0 \<le> p_sec st \<and> p_sec st < 60
     \<and> 0 \<le> p_nsec st \<and> p_nsec st < 1000000000
     \<and> (p_zoneOffset st = - 1 \<or> p_zoneOffset st mod 60 = 0 \<and> \<bar>p_zoneOffset st\<bar> \<le> 90000)"

section \<open>The validator and the timestamp parser\<close>


lemma ParseTimestamp_loop_fails:
  "snd (ParseTimestamp_loop fs s e) \<noteq> None \<longleftrightarrow>
     (\<forall>f \<in> set fs. isl (time_Parse f s)) \<and> (fs = [] \<longrightarrow> e \<noteq> None)"
  by (induction fs arbitrary: e) (auto split: sum.splits)

lemma ParseTimestamp_loop_first:
  "fs \<noteq> [] \<or> e \<noteq> None \<Longrightarrow>
   ParseTimestamp_loop fs s e = (t, None) \<longleftrightarrow>
     (\<exists>pre f post. fs = pre @ f # post \<and> (\<forall>g \<in> set pre. isl (time_Parse g s))
        \<and> time_Parse f s = Inr t)"
proof (induction fs arbitrary: e)
  case Nil
  then show ?case by simp
next
  case (Cons f fs)
  show ?case
  proof (cases "time_Parse f s")
    case (Inr u)
    have "(\<exists>pre g post. f # fs = pre @ g # post \<and> (\<forall>h \<in> set pre. isl (time_Parse h s))
             \<and> time_Parse g s = Inr t) \<longleftrightarrow> u = t"
    proof
      assume "\<exists>pre g post. f # fs = pre @ g # post \<and> (\<forall>h \<in> set pre. isl (time_Parse h s))
                \<and> time_Parse g s = Inr t"
      then obtain pre g post where
        split: "f # fs = pre @ g # post" and fail: "\<forall>h \<in> set pre. isl (time_Parse h s)"
        and ok: "time_Parse g s = Inr t"
        by blast
      show "u = t"
      proof (cases pre)
        case Nil
        with split ok Inr show ?thesis by simp
      next
        case (Cons h pre')
        with split fail Inr show ?thesis by simp
      qed
    next
      assume "u = t"
      with Inr have "f # fs = [] @ f # fs \<and> (\<forall>h \<in> set []. isl (time_Parse h s))
                       \<and> time_Parse f s = Inr t"
        by simp
      then show "\<exists>pre g post. f # fs = pre @ g # post \<and> (\<forall>h \<in> set pre. isl (time_Parse h s))
                   \<and> time_Parse g s = Inr t"
        by blast
    qed
    with Inr show ?thesis by simp
  next
    case (Inl err)
    show ?thesis
    proof (cases fs)
      case Nil
      have "\<not> (\<exists>pre g post. [f] = pre @ g # post \<and> (\<forall>h \<in> set pre. isl (time_Parse h s))
                 \<and> time_Parse g s = Inr t)"
      proof
        assume "\<exists>pre g post. [f] = pre @ g # post \<and> (\<forall>h \<in> set pre. isl (time_Parse h s))
                  \<and> time_Parse g s = Inr t"
        then obtain pre g post where "[f] = pre @ g # post" and "time_Parse g s = Inr t"
          by blast
        then have "g = f" by (cases pre) simp_all
        with \<open>time_Parse g s = Inr t\<close> Inl show False by simp
      qed
      with Inl Nil show ?thesis by simp
    next
      case (Cons f' fs')
      then have ih: "ParseTimestamp_loop fs s (Some err) = (t, None) \<longleftrightarrow>
          (\<exists>pre g post. fs = pre @ g # post \<and> (\<forall>h \<in> set pre. isl (time_Parse h s))
             \<and> time_Parse g s = Inr t)"
        using Cons.IH [of "Some err"] by simp
      have "(\<exists>pre g post. f # fs = pre @ g # post \<and> (\<forall>h \<in> set pre. isl (time_Parse h s))
               \<and> time_Parse g s = Inr t) \<longleftrightarrow>
            (\<exists>pre g post. fs = pre @ g # post \<and> (\<forall>h \<in> set pre. isl (time_Parse h s))
               \<and> time_Parse g s = Inr t)"
      proof
        assume "\<exists>pre g post. f # fs = pre @ g # post \<and> (\<forall>h \<in> set pre. isl (time_Parse h s))
                  \<and> time_Parse g s = Inr t"
        then obtain pre g post where
          split: "f # fs = pre @ g # post" and fail: "\<forall>h \<in> set pre. isl (time_Parse h s)"
          and ok: "time_Parse g s = Inr t"
          by blast
        show "\<exists>pre g post. fs = pre @ g # post \<and> (\<forall>h \<in> set pre. isl (time_Parse h s))
                \<and> time_Parse g s = Inr t"
        proof (cases pre)
          case Nil
          with split ok Inl show ?thesis by simp
        next
          case (Cons h pre')
          with split fail have "fs = pre' @ g # post" and "\<forall>h \<in> set pre'. isl (time_Parse h s)"
            by simp_all
          with ok show ?thesis by blast
        qed
      next
        assume "\<exists>pre g post. fs = pre @ g # post \<and> (\<forall>h \<in> set pre. isl (time_Parse h s))
                  \<and> time_Parse g s = Inr t"
        then obtain pre g post where
          split: "fs = pre @ g # post" and fail: "\<forall>h \<in> set pre. isl (time_Parse h s)"
          and ok: "time_Parse g s = Inr t"
          by blast
        from split fail Inl have "f # fs = (f # pre) @ g # post
            \<and> (\<forall>h \<in> set (f # pre). isl (time_Parse h s))"
          by simp
        with ok show "\<exists>pre g post. f # fs = pre @ g # post
            \<and> (\<forall>h \<in> set pre. isl (time_Parse h s)) \<and> time_Parse g s = Inr t"
          by blast
      qed
      with ih Inl show ?thesis by simp
    qed
  qed
qed

lemma formats_nonempty: "formats \<noteq> []"
  by (simp add: formats_def)

lemma ParseTimestamp_cases:
  "(\<exists>t. ParseTimestamp s = (t, None)) \<or> (\<exists>err. ParseTimestamp s = (zeroTime, Some err))"
proof -
  have "\<And>e. (\<exists>t. ParseTimestamp_loop fs s e = (t, None))
          \<or> ParseTimestamp_loop fs s e = (zeroTime, e)
          \<or> (\<exists>err. ParseTimestamp_loop fs s e = (zeroTime, Some err))" for fs
    by (induction fs) (auto split: sum.splits)
  from this [of formats None] show ?thesis
    by (auto simp: ParseTimestamp_def)
qed

lemma validation_errors_distinct:
  "distinct [TitleEmpty, TitleTooLong, InvalidTimeFormat, EndTimeBeforeStart]"
  by (simp add: TitleEmpty_def TitleTooLong_def InvalidTimeFormat_def EndTimeBeforeStart_def)

text \<open>
  C1.  For every creation request, \<open>IsValid\<close> returns exactly one error kind, checked
  in this order: \<open>TitleEmpty\<close> if the title is the empty string, else
  \<open>TitleTooLong\<close> if the title is longer than 100, else \<open>InvalidTimeFormat\<close> if
  either timestamp fails to parse, else \<open>EndTimeBeforeStart\<close> if the parsed end is
  before the parsed start, and no error if none applies.  The four errors are different
  values, and only the first one that applies is returned.
\<close>

theorem IsValid_first_error:
  "(req_Title event = [] \<longrightarrow> IsValid event = Some TitleEmpty)
   \<and> (req_Title event \<noteq> [] \<and> 100 < length (req_Title event)
        \<longrightarrow> IsValid event = Some TitleTooLong)
   \<and> (req_Title event \<noteq> [] \<and> length (req_Title event) \<le> 100
        \<and> (snd (ParseTimestamp (req_StartTime event)) \<noteq> None
             \<or> snd (ParseTimestamp (req_EndTime event)) \<noteq> None)
        \<longrightarrow> IsValid event = Some InvalidTimeFormat)
   \<and> (req_Title event \<noteq> [] \<and> length (req_Title event) \<le> 100
        \<and> ParseTimestamp (req_StartTime event) = (startTime, None)
        \<and> ParseTimestamp (req_EndTime event) = (endTime, None)
        \<longrightarrow> IsValid event
              = (if Time_Before endTime startTime then Some EndTimeBeforeStart else None))
   \<and> distinct [TitleEmpty, TitleTooLong, InvalidTimeFormat, EndTimeBeforeStart]"
  using validation_errors_distinct
  by (auto simp: IsValid_def MaxTitleLength_def split: prod.splits option.splits)

theorem IsValid_first_error_witness:
  "IsValid \<lparr>req_Title = '''', req_Description = None,
            req_StartTime = ''2026-01-20T10:00:00Z'', req_EndTime = ''2026-01-20T11:00:00Z''\<rparr>
     = Some TitleEmpty
   \<and> IsValid \<lparr>req_Title = replicate 101 (CHR ''a''), req_Description = None,
               req_StartTime = ''tomorrow'', req_EndTime = ''2026-01-20T11:00:00Z''\<rparr>
     = Some TitleTooLong
   \<and> IsValid \<lparr>req_Title = ''Standup'', req_Description = None,
               req_StartTime = ''tomorrow'', req_EndTime = ''2026-01-20T09:00:00Z''\<rparr>
     = Some InvalidTimeFormat
   \<and> IsValid \<lparr>req_Title = ''Standup'', req_Description = None,
               req_StartTime = ''2026-01-20T11:00:00Z'', req_EndTime = ''2026-01-20T10:00:00Z''\<rparr>
     = Some EndTimeBeforeStart
   \<and> IsValid \<lparr>req_Title = ''Standup'', req_Description = None,
               req_StartTime = ''2026-01-20T10:00:00Z'', req_EndTime = ''2026-01-20T11:00:00Z''\<rparr>
     = None"
proof -
  let ?t10 = "\<lparr>Year = 2026, Month = 1, Day = 20, Hour = 10, Minute = 0, Second = 0,
                Nanosecond = 0, Offset = 0\<rparr>"
  let ?t11 = "\<lparr>Year = 2026, Month = 1, Day = 20, Hour = 11, Minute = 0, Second = 0,
                Nanosecond = 0, Offset = 0\<rparr>"
  have p10: "ParseTimestamp ''2026-01-20T10:00:00Z'' = (?t10, None)"
    by code_simp
  have p11: "ParseTimestamp ''2026-01-20T11:00:00Z'' = (?t11, None)"
    by code_simp
  have bad: "snd (ParseTimestamp ''tomorrow'') \<noteq> None"
    by code_simp
  have before: "Time_Before ?t10 ?t11" and after: "\<not> Time_Before ?t11 ?t10"
    by code_simp+
  show ?thesis
    using IsValid_first_error [of "\<lparr>req_Title = '''', req_Description = None,
            req_StartTime = ''2026-01-20T10:00:00Z'', req_EndTime = ''2026-01-20T11:00:00Z''\<rparr>"]
      IsValid_first_error [of "\<lparr>req_Title = replicate 101 (CHR ''a''), req_Description = None,
               req_StartTime = ''tomorrow'', req_EndTime = ''2026-01-20T11:00:00Z''\<rparr>"]
      IsValid_first_error [of "\<lparr>req_Title = ''Standup'', req_Description = None,
               req_StartTime = ''tomorrow'', req_EndTime = ''2026-01-20T09:00:00Z''\<rparr>"]
      IsValid_first_error [of "\<lparr>req_Title = ''Standup'', req_Description = None,
               req_StartTime = ''2026-01-20T11:00:00Z'', req_EndTime = ''2026-01-20T10:00:00Z''\<rparr>"
               ?t11 ?t10]
      IsValid_first_error [of "\<lparr>req_Title = ''Standup'', req_Description = None,
               req_StartTime = ''2026-01-20T10:00:00Z'', req_EndTime = ''2026-01-20T11:00:00Z''\<rparr>"
               ?t10 ?t11]
      p10 p11 bad before after
    by simp
qed

text \<open>
  C2.  For every input string, \<open>ParseTimestamp\<close> tries the six layouts in the order
  of the list and returns the result of the first one that parses: its result is a time
  \<open>t\<close> without error exactly when the list splits into layouts that all fail, a layout
  that gives \<open>t\<close> and the rest.  It returns an error exactly when every layout fails.
\<close>

theorem ParseTimestamp_first_format:
  "formats = [''2006-01-02T15:04:05Z07:00'', ''2006-01-02T15:04:05.999999999Z07:00'',
              ''2006-01-02T15:04:05'', ''2006-01-02 15:04:05'',
              ''2006-01-02T15:04:05.000Z'', ''2006-01-02T15:04:05.000000Z'']
   \<and> (ParseTimestamp s = (t, None) \<longleftrightarrow>
        (\<exists>pre f post. formats = pre @ f # post \<and> (\<forall>g \<in> set pre. isl (time_Parse g s))
           \<and> time_Parse f s = Inr t))
   \<and> (snd (ParseTimestamp s) \<noteq> None \<longleftrightarrow> (\<forall>f \<in> set formats. isl (time_Parse f s)))"
proof (intro conjI)
  show "formats = [''2006-01-02T15:04:05Z07:00'', ''2006-01-02T15:04:05.999999999Z07:00'',
              ''2006-01-02T15:04:05'', ''2006-01-02 15:04:05'',
              ''2006-01-02T15:04:05.000Z'', ''2006-01-02T15:04:05.000000Z'']"
    by (simp add: formats_def RFC3339_def RFC3339Nano_def)
  show "ParseTimestamp s = (t, None) \<longleftrightarrow>
        (\<exists>pre f post. formats = pre @ f # post \<and> (\<forall>g \<in> set pre. isl (time_Parse g s))
           \<and> time_Parse f s = Inr t)"
    unfolding ParseTimestamp_def
    using formats_nonempty by (intro ParseTimestamp_loop_first) simp
  show "snd (ParseTimestamp s) \<noteq> None \<longleftrightarrow> (\<forall>f \<in> set formats. isl (time_Parse f s))"
    unfolding ParseTimestamp_def
    using formats_nonempty by (simp only: ParseTimestamp_loop_fails) simp
qed

theorem ParseTimestamp_first_format_witness:
  "ParseTimestamp ''2026-01-20 10:00:00''
     = (\<lparr>Year = 2026, Month = 1, Day = 20, Hour = 10, Minute = 0, Second = 0,
          Nanosecond = 0, Offset = 0\<rparr>, None)
   \<and> snd (ParseTimestamp ''tomorrow'') \<noteq> None"
proof -
  let ?t = "\<lparr>Year = 2026, Month = 1, Day = 20, Hour = 10, Minute = 0, Second = 0,
              Nanosecond = 0, Offset = 0\<rparr>"
  let ?pre = "[''2006-01-02T15:04:05Z07:00'', ''2006-01-02T15:04:05.999999999Z07:00'',
               ''2006-01-02T15:04:05'']"
  let ?post = "[''2006-01-02T15:04:05.000Z'', ''2006-01-02T15:04:05.000000Z'']"
  have split: "formats = ?pre @ ''2006-01-02 15:04:05'' # ?post"
    by (simp add: formats_def RFC3339_def RFC3339Nano_def)
  have fail: "\<forall>g \<in> set ?pre. isl (time_Parse g ''2026-01-20 10:00:00'')"
    by code_simp
  have ok: "time_Parse ''2006-01-02 15:04:05'' ''2026-01-20 10:00:00'' = Inr ?t"
    by code_simp
  have none: "\<forall>f \<in> set formats. isl (time_Parse f ''tomorrow'')"
    by code_simp
  from split fail ok
  have "\<exists>pre f post. formats = pre @ f # post
          \<and> (\<forall>g \<in> set pre. isl (time_Parse g ''2026-01-20 10:00:00''))
          \<and> time_Parse f ''2026-01-20 10:00:00'' = Inr ?t"
    by blast
  with none show ?thesis
    using ParseTimestamp_first_format [of "''2026-01-20 10:00:00''" ?t]
      ParseTimestamp_first_format [of "''tomorrow''"]
    by blast
qed

section \<open>What the parser returns\<close>

lemma isDigit_iff: "isDigit c \<longleftrightarrow> 48 \<le> (of_char c :: nat) \<and> (of_char c :: nat) \<le> 57"
  by (simp add: isDigit_def less_eq_char_def)

lemma digitVal_range: "isDigit c \<Longrightarrow> 0 \<le> digitVal c \<and> digitVal c \<le> 9"
  by (simp add: isDigit_iff digitVal_def)

lemma getnum_range:
  assumes "getnum s fixed = Some (n, r)"
  shows "0 \<le> n \<and> n < 100"
proof (cases s)
  case Nil
  with assms show ?thesis by (simp add: getnum_def)
next
  case (Cons c0 r0)
  note s = this
  show ?thesis
  proof (cases "isDigit c0")
    case False
    with assms s show ?thesis by (simp add: getnum_def)
  next
    case d0: True
    then have b0: "0 \<le> digitVal c0 \<and> digitVal c0 \<le> 9"
      by (rule digitVal_range)
    show ?thesis
    proof (cases r0)
      case Nil
      with assms s d0 b0 show ?thesis
        by (auto simp: getnum_def split: if_splits)
    next
      case (Cons c1 r1)
      show ?thesis
      proof (cases "isDigit c1")
        case False
        with assms s d0 b0 Cons show ?thesis
          by (auto simp: getnum_def split: if_splits)
      next
        case True
        then have "0 \<le> digitVal c1 \<and> digitVal c1 \<le> 9"
          by (rule digitVal_range)
        with assms s d0 b0 Cons True show ?thesis
          by (auto simp: getnum_def)
      qed
    qed
  qed
qed

lemma foldl_digits_range:
  "\<forall>c \<in> set cs. isDigit c \<Longrightarrow> 0 \<le> x \<Longrightarrow>
   0 \<le> foldl (\<lambda>x c. x * 10 + digitVal c) x cs
   \<and> foldl (\<lambda>x c. x * 10 + digitVal c) x cs < (x + 1) * 10 ^ length cs"
proof (induction cs arbitrary: x)
  case Nil
  then show ?case by simp
next
  case (Cons c cs)
  then have d: "0 \<le> digitVal c \<and> digitVal c \<le> 9"
    by (simp add: digitVal_range)
  with Cons.prems have x': "0 \<le> x * 10 + digitVal c"
    by simp
  from Cons.prems have "\<forall>c \<in> set cs. isDigit c"
    by simp
  from Cons.IH [OF this x']
  have ih: "0 \<le> foldl (\<lambda>x c. x * 10 + digitVal c) (x * 10 + digitVal c) cs"
    and lt: "foldl (\<lambda>x c. x * 10 + digitVal c) (x * 10 + digitVal c) cs
              < (x * 10 + digitVal c + 1) * 10 ^ length cs"
    by simp_all
  from d have "x * 10 + digitVal c + 1 \<le> (x + 1) * 10"
    by simp
  then have "(x * 10 + digitVal c + 1) * 10 ^ length cs \<le> ((x + 1) * 10) * 10 ^ length cs"
    by (intro mult_right_mono) simp_all
  with lt have "foldl (\<lambda>x c. x * 10 + digitVal c) (x * 10 + digitVal c) cs
                 < ((x + 1) * 10) * 10 ^ length cs"
    by (rule less_le_trans)
  also have "((x + 1) * 10) * 10 ^ length cs = (x + 1) * 10 ^ length (c # cs)"
    by simp
  finally show ?case
    using ih by simp
qed

lemma leadingInt_range:
  assumes "leadingInt s = (q, [])"
  shows "0 \<le> q \<and> q < 10 ^ length s"
proof -
  from assms have all: "dropWhile isDigit s = []"
    and q: "q = foldl (\<lambda>x c. x * 10 + digitVal c) 0 (takeWhile isDigit s)"
    by (simp_all add: leadingInt_def)
  from all have "\<forall>c \<in> set s. isDigit c"
    by (simp add: dropWhile_eq_Nil_conv)
  then have "takeWhile isDigit s = s"
    by (simp add: takeWhile_eq_all_conv)
  with q \<open>\<forall>c \<in> set s. isDigit c\<close> foldl_digits_range [of s 0] show ?thesis
    by simp
qed

lemma atoi_range:
  assumes "atoi s = Some x"
  shows "\<bar>x\<bar> < 10 ^ length s"
proof -
  let ?signed = "s \<noteq> [] \<and> (hd s = CHR ''-'' \<or> hd s = CHR ''+'')"
  let ?r = "if ?signed then tl s else s"
  obtain q rem where li: "leadingInt ?r = (q, rem)"
    by (cases "leadingInt ?r")
  with assms have rem: "rem = []" and x: "\<bar>x\<bar> = \<bar>q\<bar>"
    by (auto simp: atoi_def Let_def split: if_splits)
  from li rem have "0 \<le> q \<and> q < 10 ^ length ?r"
    by (intro leadingInt_range) simp
  moreover have "(10::int) ^ length ?r \<le> 10 ^ length s"
    by (intro power_increasing) simp_all
  ultimately show ?thesis
    using x by linarith
qed

lemma parseNanoseconds_range:
  assumes "parseNanoseconds val nbytes = Inr ns"
  shows "0 \<le> ns \<and> ns < 1000000000"
proof -
  let ?n = "min nbytes 10"
  let ?s = "drop 1 (take ?n val)"
  from assms obtain x where x: "atoi ?s = Some x" and pos: "0 \<le> x"
    and ns: "ns = x * 10 ^ (10 - ?n)"
    by (auto simp: parseNanoseconds_def Let_def split: if_splits option.splits)
  from x have lt: "\<bar>x\<bar> < 10 ^ length ?s"
    by (rule atoi_range)
  have len: "length ?s \<le> ?n - 1"
    by simp
  show ?thesis
  proof (cases "?n = 0")
    case True
    with lt pos ns show ?thesis by simp
  next
    case False
    then have n: "1 \<le> ?n" "?n \<le> 10"
      by simp_all
    have "(10::int) ^ length ?s \<le> 10 ^ (?n - 1)"
      using len by (intro power_increasing) simp_all
    with lt pos have "x < 10 ^ (?n - 1)"
      by linarith
    then have "x * 10 ^ (10 - ?n) < 10 ^ (?n - 1) * (10::int) ^ (10 - ?n)"
      by (intro mult_strict_right_mono) simp_all
    also have "\<dots> = 10 ^ ((?n - 1) + (10 - ?n))"
      by (rule power_add [symmetric])
    also from n have "(?n - 1) + (10 - ?n) = 9"
      by linarith
    finally have "x * 10 ^ (10 - ?n) < 1000000000"
      by simp
    with pos ns show ?thesis by simp
  qed
qed

lemma parseFraction_inv:
  "parseFraction n st = Inr st' \<Longrightarrow> parseInv st \<Longrightarrow> parseInv st'"
  by (auto simp: parseFraction_def parseInv_def split: sum.splits
           dest: parseNanoseconds_range)

lemma parseZone_inv:
  assumes "parseZone st = Inr st'" and "parseInv st"
  shows "parseInv st'"
proof (cases "p_value st \<noteq> [] \<and> hd (p_value st) = CHR ''Z''")
  case True
  with assms show ?thesis
    by (auto simp: parseZone_def parseInv_def Let_def)
next
  case False
  with assms obtain hr r1 mm r2 where
    hr: "getnum (take 2 (drop 1 (p_value st))) True = Some (hr, r1)"
    and mm: "getnum (take 2 (drop 4 (p_value st))) True = Some (mm, r2)"
    and le: "hr \<le> 24" "mm \<le> 60"
    and st': "st' = st\<lparr>p_value := drop 6 (p_value st), p_zoneOffset := (hr * 60 + mm) * 60\<rparr>
              \<or> st' = st\<lparr>p_value := drop 6 (p_value st),
                         p_zoneOffset := - ((hr * 60 + mm) * 60)\<rparr>"
    by (auto simp: parseZone_def Let_def split: if_splits option.splits)
  from hr mm have "0 \<le> hr" "0 \<le> mm"
    using getnum_range by blast+
  with le have "\<bar>(hr * 60 + mm) * 60\<bar> \<le> 90000" and "((hr * 60 + mm) * 60) mod 60 = 0"
    by simp_all
  with st' assms(2) show ?thesis
    by (auto simp: parseInv_def)
qed

lemma parseSecond_inv:
  assumes "parseSecond layout st = Inr st'" and "parseInv st"
  shows "parseInv st'"
proof -
  from assms(1) obtain s rest where
    g: "getnum (p_value st) True = Some (s, rest)" and r: "0 \<le> s" "s < 60"
    and st': "parseFraction (1 + length (takeWhile isDigit (tl rest)))
                (st\<lparr>p_value := rest, p_sec := s\<rparr>) = Inr st'
              \<or> st' = st\<lparr>p_value := rest, p_sec := s\<rparr>"
    by (auto simp: parseSecond_def split: option.splits if_splits)
  from assms(2) r have "parseInv (st\<lparr>p_value := rest, p_sec := s\<rparr>)"
    by (simp add: parseInv_def)
  with st' show ?thesis
    using parseFraction_inv by blast
qed

lemma parseYear_range:
  assumes "atoi (take 4 val) = Some y" and "isDigit (hd val)" and "4 \<le> length val"
  shows "0 \<le> y \<and> y < 10000"
proof -
  from assms(3) obtain c r where val: "val = c # r"
    by (cases val) simp_all
  with assms(2) have c: "isDigit c" by simp
  then have nosign: "c \<noteq> CHR ''-'' \<and> c \<noteq> CHR ''+''"
    by (auto simp: isDigit_iff)
  obtain q rem where li: "leadingInt (take 4 val) = (q, rem)"
    by (cases "leadingInt (take 4 val)")
  with assms(1) val nosign have rem: "rem = []" and y: "y = q"
    by (auto simp: atoi_def Let_def split: if_splits)
  from li rem have "0 \<le> q \<and> q < 10 ^ length (take 4 val)"
    by (intro leadingInt_range) simp
  moreover from assms(3) have "length (take 4 val) = 4"
    by simp
  ultimately show ?thesis
    using y by simp
qed

lemma parseStd_inv:
  assumes "parseStd std layout st = Inr st'" and "parseInv st"
  shows "parseInv st'"
proof (cases std)
  case (Lit c)
  with assms show ?thesis by simp
next
  case stdLongYear
  with assms(1) obtain y where y: "atoi (take 4 (p_value st)) = Some y"
    and d: "isDigit (hd (p_value st))" and l: "4 \<le> length (p_value st)"
    and st': "st' = st\<lparr>p_value := drop 4 (p_value st), p_year := y\<rparr>"
    by (auto split: if_splits option.splits)
  from y d l have "0 \<le> y \<and> y < 10000"
    by (rule parseYear_range)
  with st' assms(2) show ?thesis
    by (simp add: parseInv_def)
next
  case stdZeroMonth
  with assms show ?thesis
    by (auto simp: parseInv_def split: option.splits if_splits)
next
  case stdZeroDay
  with assms show ?thesis
    by (auto simp: parseInv_def split: option.splits if_splits)
next
  case stdHour
  with assms show ?thesis
    by (auto simp: parseInv_def split: option.splits if_splits)
next
  case stdZeroMinute
  with assms show ?thesis
    by (auto simp: parseInv_def split: option.splits if_splits)
next
  case stdZeroSecond
  with assms show ?thesis
    by (simp add: parseSecond_inv)
next
  case (stdFracSecond0 k sep)
  with assms show ?thesis
    by (auto split: if_splits dest: parseFraction_inv)
next
  case (stdFracSecond9 k sep)
  with assms show ?thesis
    by (auto split: if_splits dest: parseFraction_inv)
next
  case stdISO8601ColonTZ
  with assms show ?thesis
    by (simp add: parseZone_inv)
qed

lemma parseFinish_valid:
  assumes "parseFinish st = Inr t" and "parseInv st"
  shows "validTime t"
proof -
  let ?month = "if p_month st < 0 then 1 else p_month st"
  let ?day = "if p_day st < 0 then 1 else p_day st"
  from assms(1) have day: "1 \<le> ?day" "?day \<le> daysIn ?month (p_year st)"
    and t: "t = \<lparr>Year = p_year st, Month = ?month, Day = ?day, Hour = p_hour st,
                 Minute = p_min st, Second = p_sec st, Nanosecond = p_nsec st,
                 Offset = (if p_z st then 0
                           else if p_zoneOffset st \<noteq> - 1 then p_zoneOffset st else 0)\<rparr>"
    by (auto simp: parseFinish_def Let_def split: if_splits)
  from assms(2) have month: "1 \<le> ?month \<and> ?month \<le> 12"
    by (auto simp: parseInv_def)
  from assms(2) have off: "(if p_z st then 0
       else if p_zoneOffset st \<noteq> - 1 then p_zoneOffset st else 0) mod 60 = 0
     \<and> \<bar>if p_z st then 0 else if p_zoneOffset st \<noteq> - 1 then p_zoneOffset st else 0\<bar> \<le> 90000"
    by (auto simp: parseInv_def)
  from assms(2) have rest: "0 \<le> p_year st \<and> p_year st < 10000 \<and> 0 \<le> p_hour st \<and> p_hour st < 24
      \<and> 0 \<le> p_min st \<and> p_min st < 60 \<and> 0 \<le> p_sec st \<and> p_sec st < 60
      \<and> 0 \<le> p_nsec st \<and> p_nsec st < 1000000000"
    by (simp add: parseInv_def)
  show ?thesis
    unfolding validTime_def t using day month off rest by simp
qed

lemma parseChunks_valid:
  "parseChunks sp layout st = Inr t \<Longrightarrow> parseInv st \<Longrightarrow> validTime t"
proof (induction sp layout st rule: parseChunks.induct)
  case (1 sp st)
  then show ?case by (simp add: parseFinish_valid)
next
  case (2 sp c layout st)
  have inv': "\<And>v. parseInv (st\<lparr>p_value := v\<rparr>)"
    using "2.prems"(2) by (simp add: parseInv_def)
  show ?case
  proof (cases "c = CHR '' ''")
    case sp_c: True
    show ?thesis
    proof (cases sp)
      case True
      with sp_c "2.prems" "2.IH"(1) show ?thesis by simp
    next
      case False
      with sp_c "2.prems"(1) have
        ok: "\<not> (p_value st \<noteq> [] \<and> hd (p_value st) \<noteq> CHR '' '')"
        and run: "parseChunks True layout
                   (st\<lparr>p_value := dropWhile (\<lambda>k. k = CHR '' '') (p_value st)\<rparr>) = Inr t"
        by (auto split: if_splits)
      from "2.IH"(2) [OF sp_c False ok run inv'] show ?thesis .
    qed
  next
    case False
    with "2.prems"(1) have
      ok: "\<not> (p_value st = [] \<or> hd (p_value st) \<noteq> c)"
      and run: "parseChunks False layout (st\<lparr>p_value := tl (p_value st)\<rparr>) = Inr t"
      by (auto split: if_splits)
    from "2.IH"(3) [OF False ok run inv'] show ?thesis .
  qed
qed (auto split: sum.splits simp del: parseStd.simps dest: parseStd_inv)

lemma initState_inv: "parseInv (initState val)"
  by (simp add: parseInv_def initState_def)

lemma time_Parse_valid: "time_Parse layout val = Inr t \<Longrightarrow> validTime t"
  unfolding time_Parse_def using parseChunks_valid initState_inv by blast

lemma ParseTimestamp_valid:
  assumes "ParseTimestamp s = (t, None)"
  shows "validTime t"
proof -
  have "\<And>e. ParseTimestamp_loop fs s e = (t, None) \<Longrightarrow> fs \<noteq> [] \<or> e \<noteq> None \<Longrightarrow> validTime t" for fs
  proof (induction fs)
    case Nil
    then show ?case by simp
  next
    case (Cons f fs)
    show ?case
    proof (cases "time_Parse f s")
      case (Inr u)
      with Cons.prems(1) have "u = t" by simp
      with Inr show ?thesis by (simp add: time_Parse_valid)
    next
      case (Inl err)
      with Cons.prems(1) have run: "ParseTimestamp_loop fs s (Some err) = (t, None)"
        by simp
      from Cons.IH [OF run] show ?thesis by simp
    qed
  qed
  from this [of formats None] assms show ?thesis
    by (simp add: ParseTimestamp_def formats_def)
qed

lemma Time_Before_absNanos:
  assumes "0 \<le> Nanosecond t" "Nanosecond t < 1000000000"
    and "0 \<le> Nanosecond u" "Nanosecond u < 1000000000"
  shows "Time_Before t u \<longleftrightarrow> absNanos t < absNanos u"
  using assms unfolding Time_Before_def absNanos_def by linarith

lemma parsed_Before_absNanos:
  assumes "ParseTimestamp s = (t, None)" and "ParseTimestamp s' = (u, None)"
  shows "Time_Before t u \<longleftrightarrow> absNanos t < absNanos u"
proof -
  from assms have "validTime t" and "validTime u"
    by (simp_all add: ParseTimestamp_valid)
  then show ?thesis
    by (intro Time_Before_absNanos) (simp_all add: validTime_def)
qed

text \<open>
  C5.  When the other fields are valid, a title of exactly 100 bytes is accepted, and a
  title of more than 100 bytes is rejected with \<open>TitleTooLong\<close>, whatever the other
  fields are.  The length is the number of bytes of the string.
\<close>

theorem title_length_boundary:
  "(length (req_Title event) = 100
      \<and> ParseTimestamp (req_StartTime event) = (startTime, None)
      \<and> ParseTimestamp (req_EndTime event) = (endTime, None)
      \<and> \<not> Time_Before endTime startTime
      \<longrightarrow> IsValid event = None)
   \<and> (100 < length (req_Title event) \<longrightarrow> IsValid event = Some TitleTooLong)"
  by (auto simp: IsValid_def MaxTitleLength_def)

theorem title_length_boundary_witness:
  "IsValid \<lparr>req_Title = replicate 100 (CHR ''a''), req_Description = None,
            req_StartTime = ''2026-01-20T10:00:00Z'', req_EndTime = ''2026-01-20T11:00:00Z''\<rparr>
     = None
   \<and> IsValid \<lparr>req_Title = replicate 101 (CHR ''a''), req_Description = None,
               req_StartTime = ''2026-01-20T10:00:00Z'', req_EndTime = ''2026-01-20T11:00:00Z''\<rparr>
     = Some TitleTooLong
   \<and> IsValid \<lparr>req_Title = concat (replicate 51 [CHR 0xC3, CHR 0xA9]), req_Description = None,
               req_StartTime = ''2026-01-20T10:00:00Z'', req_EndTime = ''2026-01-20T11:00:00Z''\<rparr>
     = Some TitleTooLong"
proof -
  let ?t10 = "\<lparr>Year = 2026, Month = 1, Day = 20, Hour = 10, Minute = 0, Second = 0,
                Nanosecond = 0, Offset = 0\<rparr>"
  let ?t11 = "\<lparr>Year = 2026, Month = 1, Day = 20, Hour = 11, Minute = 0, Second = 0,
                Nanosecond = 0, Offset = 0\<rparr>"
  have p10: "ParseTimestamp ''2026-01-20T10:00:00Z'' = (?t10, None)"
    by code_simp
  have p11: "ParseTimestamp ''2026-01-20T11:00:00Z'' = (?t11, None)"
    by code_simp
  have after: "\<not> Time_Before ?t11 ?t10"
    by code_simp
  have len: "length (concat (replicate 51 [CHR 0xC3, CHR 0xA9])) = 102"
    by code_simp
  show ?thesis
    using title_length_boundary [of "\<lparr>req_Title = replicate 100 (CHR ''a''),
            req_Description = None, req_StartTime = ''2026-01-20T10:00:00Z'',
            req_EndTime = ''2026-01-20T11:00:00Z''\<rparr>" ?t10 ?t11]
      title_length_boundary [of "\<lparr>req_Title = replicate 101 (CHR ''a''),
            req_Description = None, req_StartTime = ''2026-01-20T10:00:00Z'',
            req_EndTime = ''2026-01-20T11:00:00Z''\<rparr>"]
      title_length_boundary [of "\<lparr>req_Title = concat (replicate 51 [CHR 0xC3, CHR 0xA9]),
            req_Description = None, req_StartTime = ''2026-01-20T10:00:00Z'',
            req_EndTime = ''2026-01-20T11:00:00Z''\<rparr>"]
      p10 p11 after len
    by simp
qed

text \<open>
  C6.  For every request with a title that is not empty and within the limit and with
  two timestamps that parse, \<open>IsValid\<close> returns \<open>EndTimeBeforeStart\<close> exactly when
  the instant of the parsed end is strictly before the instant of the parsed start, and
  accepts the request otherwise; in particular when the two instants are the same.
\<close>

theorem end_before_start_iff:
  assumes "req_Title event \<noteq> []" and "length (req_Title event) \<le> 100"
    and "ParseTimestamp (req_StartTime event) = (startTime, None)"
    and "ParseTimestamp (req_EndTime event) = (endTime, None)"
  shows "(IsValid event = Some EndTimeBeforeStart \<longleftrightarrow> absNanos endTime < absNanos startTime)
         \<and> (IsValid event = None \<longleftrightarrow> absNanos startTime \<le> absNanos endTime)
         \<and> (absNanos endTime = absNanos startTime \<longrightarrow> IsValid event = None)"
proof -
  from assms(3,4) have "Time_Before endTime startTime \<longleftrightarrow> absNanos endTime < absNanos startTime"
    by (intro parsed_Before_absNanos)
  with assms show ?thesis
    by (auto simp: IsValid_def MaxTitleLength_def EndTimeBeforeStart_def)
qed

theorem end_before_start_iff_witness:
  "IsValid \<lparr>req_Title = ''Standup'', req_Description = None,
            req_StartTime = ''2026-01-20T10:00:00+01:00'',
            req_EndTime = ''2026-01-20T09:00:00Z''\<rparr> = None
   \<and> IsValid \<lparr>req_Title = ''Standup'', req_Description = None,
               req_StartTime = ''2026-01-20T09:00:00Z'',
               req_EndTime = ''2026-01-20T09:59:59+01:00''\<rparr> = Some EndTimeBeforeStart"
proof -
  let ?a = "\<lparr>Year = 2026, Month = 1, Day = 20, Hour = 10, Minute = 0, Second = 0,
              Nanosecond = 0, Offset = 3600\<rparr>"
  let ?b = "\<lparr>Year = 2026, Month = 1, Day = 20, Hour = 9, Minute = 0, Second = 0,
              Nanosecond = 0, Offset = 0\<rparr>"
  let ?c = "\<lparr>Year = 2026, Month = 1, Day = 20, Hour = 9, Minute = 59, Second = 59,
              Nanosecond = 0, Offset = 3600\<rparr>"
  have pa: "ParseTimestamp ''2026-01-20T10:00:00+01:00'' = (?a, None)"
    by code_simp
  have pb: "ParseTimestamp ''2026-01-20T09:00:00Z'' = (?b, None)"
    by code_simp
  have pc: "ParseTimestamp ''2026-01-20T09:59:59+01:00'' = (?c, None)"
    by code_simp
  have same: "absNanos ?b = absNanos ?a" and less: "absNanos ?c < absNanos ?b"
    by code_simp+
  have "IsValid \<lparr>req_Title = ''Standup'', req_Description = None,
            req_StartTime = ''2026-01-20T10:00:00+01:00'',
            req_EndTime = ''2026-01-20T09:00:00Z''\<rparr> = None"
    using end_before_start_iff [of "\<lparr>req_Title = ''Standup'', req_Description = None,
            req_StartTime = ''2026-01-20T10:00:00+01:00'',
            req_EndTime = ''2026-01-20T09:00:00Z''\<rparr>" ?a ?b] pa pb same
    by simp
  moreover have "IsValid \<lparr>req_Title = ''Standup'', req_Description = None,
               req_StartTime = ''2026-01-20T09:00:00Z'',
               req_EndTime = ''2026-01-20T09:59:59+01:00''\<rparr> = Some EndTimeBeforeStart"
    using end_before_start_iff [of "\<lparr>req_Title = ''Standup'', req_Description = None,
               req_StartTime = ''2026-01-20T09:00:00Z'',
               req_EndTime = ''2026-01-20T09:59:59+01:00''\<rparr>" ?b ?c] pb pc less
    by simp
  ultimately show ?thesis by simp
qed

text \<open>
  C10.  In \<open>createEvent\<close>, for every request on which \<open>IsValid\<close> returns no error,
  the two later calls of \<open>ParseTimestamp\<close> return no error either, so the errors that
  are dropped are \<open>nil\<close>, and the event that is given to \<open>InsertEvent\<close> carries the
  two parsed times, with the title and the description of the request.
\<close>

theorem createEvent_timestamps_parse:
  assumes "IsValid req = None"
  shows "\<exists>startTime endTime.
           ParseTimestamp (req_StartTime req) = (startTime, None)
           \<and> ParseTimestamp (req_EndTime req) = (endTime, None)
           \<and> createEvent_event req
               = \<lparr>ev_ID = uuid_Nil, ev_Title = req_Title req,
                  ev_Description = req_Description req, ev_StartTime = startTime,
                  ev_EndTime = endTime, ev_CreatedAt = zeroTime\<rparr>
           \<and> createEvent newID now db req
               = (case InsertEvent newID now db
                         \<lparr>ev_ID = uuid_Nil, ev_Title = req_Title req,
                          ev_Description = req_Description req, ev_StartTime = startTime,
                          ev_EndTime = endTime, ev_CreatedAt = zeroTime\<rparr> of
                    (Some err, event, db') \<Rightarrow>
                      (Response 500 (JSONError ''Failed to create event''), db')
                  | (None, event, db') \<Rightarrow> (c_JSON_event 201 event, db'))"
proof -
  obtain startTime e1 where s: "ParseTimestamp (req_StartTime req) = (startTime, e1)"
    by (cases "ParseTimestamp (req_StartTime req)")
  obtain endTime e2 where e: "ParseTimestamp (req_EndTime req) = (endTime, e2)"
    by (cases "ParseTimestamp (req_EndTime req)")
  from assms s e have "e1 = None" and "e2 = None"
    by (auto simp: IsValid_def split: if_splits option.splits)
  with s e assms show ?thesis
    by (simp add: createEvent_event_def createEvent_def)
qed

theorem createEvent_timestamps_parse_witness:
  "createEvent_event \<lparr>req_Title = ''Standup'', req_Description = None,
       req_StartTime = ''2026-01-16T09:00:00Z'', req_EndTime = ''2026-01-16T09:15:00Z''\<rparr>
   = \<lparr>ev_ID = uuid_Nil, ev_Title = ''Standup'', ev_Description = None,
      ev_StartTime = \<lparr>Year = 2026, Month = 1, Day = 16, Hour = 9, Minute = 0, Second = 0,
                       Nanosecond = 0, Offset = 0\<rparr>,
      ev_EndTime = \<lparr>Year = 2026, Month = 1, Day = 16, Hour = 9, Minute = 15, Second = 0,
                     Nanosecond = 0, Offset = 0\<rparr>,
      ev_CreatedAt = zeroTime\<rparr>"
proof -
  let ?req = "\<lparr>req_Title = ''Standup'', req_Description = None,
       req_StartTime = ''2026-01-16T09:00:00Z'', req_EndTime = ''2026-01-16T09:15:00Z''\<rparr>"
  have valid: "IsValid ?req = None"
    by code_simp
  have ps: "ParseTimestamp ''2026-01-16T09:00:00Z''
      = (\<lparr>Year = 2026, Month = 1, Day = 16, Hour = 9, Minute = 0, Second = 0,
           Nanosecond = 0, Offset = 0\<rparr>, None)"
    by code_simp
  have pe: "ParseTimestamp ''2026-01-16T09:15:00Z''
      = (\<lparr>Year = 2026, Month = 1, Day = 16, Hour = 9, Minute = 15, Second = 0,
           Nanosecond = 0, Offset = 0\<rparr>, None)"
    by code_simp
  from createEvent_timestamps_parse [OF valid] ps pe show ?thesis
    by auto
qed

section \<open>Identifiers and their string form\<close>

lemma xvalue_hexdigit: "n < 16 \<Longrightarrow> xvalue (hexdigit n) = Some n"
proof -
  have "\<forall>n \<in> set [0..<16]. xvalue (hexdigit n) = Some n"
    by code_simp
  then show "n < 16 \<Longrightarrow> xvalue (hexdigit n) = Some n"
    by simp
qed

lemma xtob_hexdigit:
  fixes b :: "8 word"
  shows "xtob (hexdigit (unat b div 16)) (hexdigit (unat b mod 16)) = Some b"
proof -
  have "unat b < 256"
    using unsigned_less [of b] by simp
  then have "unat b div 16 < 16"
    by simp
  moreover have "unat b mod 16 < 16"
    by simp
  moreover have "(of_nat (unat b div 16 * 16 + unat b mod 16) :: 8 word) = b"
    by (simp only: div_mult_mod_eq) simp
  ultimately show ?thesis
    by (simp add: xtob_def xvalue_hexdigit)
qed

lemma sixteen_bytes:
  assumes "length (u :: 'a list) = 16"
  obtains b0 b1 b2 b3 b4 b5 b6 b7 b8 b9 b10 b11 b12 b13 b14 b15
  where "u = [b0, b1, b2, b3, b4, b5, b6, b7, b8, b9, b10, b11, b12, b13, b14, b15]"
proof -
  have upt: "[0..<16] = [0, 1, 2, 3, 4, 5, 6, 7, 8, 9, 10, 11, 12, 13, 14, 15]"
    by code_simp
  have "u = map ((!) u) [0..<length u]"
    by (simp only: map_nth)
  with assms have "u = map ((!) u) [0, 1, 2, 3, 4, 5, 6, 7, 8, 9, 10, 11, 12, 13, 14, 15]"
    by (simp only: upt)
  then have "u = [u ! 0, u ! 1, u ! 2, u ! 3, u ! 4, u ! 5, u ! 6, u ! 7, u ! 8, u ! 9,
                  u ! 10, u ! 11, u ! 12, u ! 13, u ! 14, u ! 15]"
    by (simp only: list.map)
  then show ?thesis
    by (rule that)
qed

lemma uuid_String_bytes:
  "uuid_String [b0, b1, b2, b3, b4, b5, b6, b7, b8, b9, b10, b11, b12, b13, b14, b15] =
     [hexdigit (unat b0 div 16), hexdigit (unat b0 mod 16),
      hexdigit (unat b1 div 16), hexdigit (unat b1 mod 16),
      hexdigit (unat b2 div 16), hexdigit (unat b2 mod 16),
      hexdigit (unat b3 div 16), hexdigit (unat b3 mod 16), CHR ''-'',
      hexdigit (unat b4 div 16), hexdigit (unat b4 mod 16),
      hexdigit (unat b5 div 16), hexdigit (unat b5 mod 16), CHR ''-'',
      hexdigit (unat b6 div 16), hexdigit (unat b6 mod 16),
      hexdigit (unat b7 div 16), hexdigit (unat b7 mod 16), CHR ''-'',
      hexdigit (unat b8 div 16), hexdigit (unat b8 mod 16),
      hexdigit (unat b9 div 16), hexdigit (unat b9 mod 16), CHR ''-'',
      hexdigit (unat b10 div 16), hexdigit (unat b10 mod 16),
      hexdigit (unat b11 div 16), hexdigit (unat b11 mod 16),
      hexdigit (unat b12 div 16), hexdigit (unat b12 mod 16),
      hexdigit (unat b13 div 16), hexdigit (unat b13 mod 16),
      hexdigit (unat b14 div 16), hexdigit (unat b14 mod 16),
      hexdigit (unat b15 div 16), hexdigit (unat b15 mod 16)]"
  by (simp add: uuid_String_def hex_Encode_def)

lemma uuid_Parse36_chars:
  "uuid_Parse36 [c0, c1, c2, c3, c4, c5, c6, c7, CHR ''-'', c9, c10, c11, c12, CHR ''-'', c14, c15, c16, c17, CHR ''-'', c19, c20, c21, c22, CHR ''-'', c24, c25, c26, c27, c28, c29, c30, c31, c32, c33, c34, c35] =
     those [xtob c0 c1, xtob c2 c3, xtob c4 c5, xtob c6 c7, xtob c9 c10, xtob c11 c12, xtob c14 c15, xtob c16 c17, xtob c19 c20, xtob c21 c22, xtob c24 c25, xtob c26 c27, xtob c28 c29, xtob c30 c31, xtob c32 c33, xtob c34 c35]"
  unfolding uuid_Parse36_def by simp

lemma uuid_Parse_chars:
  "uuid_Parse [c0, c1, c2, c3, c4, c5, c6, c7, CHR ''-'', c9, c10, c11, c12, CHR ''-'', c14, c15, c16, c17, CHR ''-'', c19, c20, c21, c22, CHR ''-'', c24, c25, c26, c27, c28, c29, c30, c31, c32, c33, c34, c35] =
     those [xtob c0 c1, xtob c2 c3, xtob c4 c5, xtob c6 c7, xtob c9 c10, xtob c11 c12, xtob c14 c15, xtob c16 c17, xtob c19 c20, xtob c21 c22, xtob c24 c25, xtob c26 c27, xtob c28 c29, xtob c30 c31, xtob c32 c33, xtob c34 c35]"
proof -
  have "length [c0, c1, c2, c3, c4, c5, c6, c7, CHR ''-'', c9, c10, c11, c12, CHR ''-'', c14, c15, c16, c17, CHR ''-'', c19, c20, c21, c22, CHR ''-'', c24, c25, c26, c27, c28, c29, c30, c31, c32, c33, c34, c35] = 36"
    by simp
  then show ?thesis
    unfolding uuid_Parse_def by (simp only: uuid_Parse36_chars if_True HOL.simp_thms)
qed

lemma uuid_Parse_String:
  assumes "length u = 16"
  shows "uuid_Parse (uuid_String u) = Some u"
proof -
  from assms obtain b0 b1 b2 b3 b4 b5 b6 b7 b8 b9 b10 b11 b12 b13 b14 b15
    where u: "u = [b0, b1, b2, b3, b4, b5, b6, b7, b8, b9, b10, b11, b12, b13, b14, b15]"
    by (rule sixteen_bytes)
  show ?thesis
    unfolding u uuid_String_bytes uuid_Parse_chars
    by (simp add: xtob_hexdigit)
qed

lemma uuid_String_inject:
  assumes "length u = 16" and "length v = 16" and "uuid_String u = uuid_String v"
  shows "u = v"
proof -
  have "Some u = uuid_Parse (uuid_String u)"
    by (simp only: uuid_Parse_String [OF assms(1)])
  also have "\<dots> = uuid_Parse (uuid_String v)"
    by (simp only: assms(3))
  also have "\<dots> = Some v"
    by (rule uuid_Parse_String [OF assms(2)])
  finally show ?thesis
    by (simp only: option.inject)
qed

section \<open>Writing a time and reading it back\<close>

lemma isDigit_digitChar: "d < 10 \<Longrightarrow> isDigit (digitChar d)"
  by (simp add: isDigit_iff digitChar_def)

lemma digitVal_digitChar: "d < 10 \<Longrightarrow> digitVal (digitChar d) = int d"
  by (simp add: digitVal_def digitChar_def)

lemma digitChar_not_sign:
  "d < 10 \<Longrightarrow> digitChar d \<noteq> CHR ''-'' \<and> digitChar d \<noteq> CHR ''+''"
proof -
  assume "d < 10"
  then have "isDigit (digitChar d)"
    by (rule isDigit_digitChar)
  then show ?thesis
    by (auto simp: isDigit_iff)
qed

lemma digits_one: "n < 10 \<Longrightarrow> digits n = [digitChar n]"
  by (simp add: digits.simps)

lemma digits_two: "10 \<le> n \<Longrightarrow> n < 100 \<Longrightarrow> digits n = [digitChar (n div 10), digitChar (n mod 10)]"
  by (subst digits.simps) (simp add: digits_one)

lemma digits_three:
  assumes "100 \<le> n" and "n < 1000"
  shows "digits n = [digitChar (n div 100), digitChar (n div 10 mod 10), digitChar (n mod 10)]"
proof -
  from assms have "10 \<le> n div 10" and "n div 10 < 100"
    by simp_all
  then have "digits (n div 10) = [digitChar (n div 10 div 10), digitChar (n div 10 mod 10)]"
    by (rule digits_two)
  moreover have "n div 10 div 10 = n div 100"
    by (simp add: div_mult2_eq)
  ultimately show ?thesis
    using assms by (subst digits.simps) simp
qed

lemma digits_four:
  assumes "1000 \<le> n" and "n < 10000"
  shows "digits n = [digitChar (n div 1000), digitChar (n div 100 mod 10),
                     digitChar (n div 10 mod 10), digitChar (n mod 10)]"
proof -
  from assms have "100 \<le> n div 10" and "n div 10 < 1000"
    by simp_all
  then have "digits (n div 10) = [digitChar (n div 10 div 100),
      digitChar (n div 10 div 10 mod 10), digitChar (n div 10 mod 10)]"
    by (rule digits_three)
  moreover have "n div 10 div 100 = n div 1000" and "n div 10 div 10 = n div 100"
    by (simp_all add: div_mult2_eq)
  ultimately show ?thesis
    using assms by (subst digits.simps) simp
qed

lemma digitChar_0: "digitChar 0 = CHR ''0''"
  by code_simp

lemma appendInt_two:
  "n < 100 \<Longrightarrow> appendInt (int n) 2 = [digitChar (n div 10), digitChar (n mod 10)]"
proof (cases "n < 10")
  case True
  then show ?thesis
    by (simp add: appendInt_def digits_one digitChar_0)
next
  case False
  assume "n < 100"
  with False show ?thesis
    by (simp add: appendInt_def digits_two)
qed

lemma appendInt_four:
  assumes "n < 10000"
  shows "appendInt (int n) 4 = [digitChar (n div 1000), digitChar (n div 100 mod 10),
                                 digitChar (n div 10 mod 10), digitChar (n mod 10)]"
proof -
  consider "n < 10" | "10 \<le> n" "n < 100" | "100 \<le> n" "n < 1000" | "1000 \<le> n"
    by linarith
  note cases = this
  have rep: "replicate 3 (CHR ''0'') = ''000''" "replicate 2 (CHR ''0'') = ''00''"
    by (simp_all add: numeral_3_eq_3 numeral_2_eq_2)
  show ?thesis
    using cases
  proof cases
    case 1
    then show ?thesis
      by (simp add: appendInt_def digits_one digitChar_0 rep)
  next
    case 2
    then show ?thesis
      by (simp add: appendInt_def digits_two digitChar_0 rep)
  next
    case 3
    then show ?thesis
      by (simp add: appendInt_def digits_three digitChar_0)
  next
    case 4
    with assms show ?thesis
      by (simp add: appendInt_def digits_four)
  qed
qed

lemma getnum_two:
  "a < 10 \<Longrightarrow> b < 10 \<Longrightarrow>
   getnum (digitChar a # digitChar b # r) fixed = Some (int a * 10 + int b, r)"
  by (simp add: getnum_def isDigit_digitChar digitVal_digitChar)

lemma atoi_four:
  assumes "a < 10" "b < 10" "c < 10" "d < 10"
  shows "atoi [digitChar a, digitChar b, digitChar c, digitChar d]
           = Some (int a * 1000 + int b * 100 + int c * 10 + int d)"
  using assms digitChar_not_sign [of a]
  by (simp add: atoi_def leadingInt_def isDigit_digitChar digitVal_digitChar)

lemma chunks_RFC3339:
  "layoutChunks RFC3339 =
     [stdLongYear, Lit (CHR ''-''), stdZeroMonth, Lit (CHR ''-''), stdZeroDay, Lit (CHR ''T''),
      stdHour, Lit (CHR '':''), stdZeroMinute, Lit (CHR '':''), stdZeroSecond,
      stdISO8601ColonTZ]"
  by code_simp

lemma chunks_RFC3339Nano:
  "layoutChunks RFC3339Nano =
     [stdLongYear, Lit (CHR ''-''), stdZeroMonth, Lit (CHR ''-''), stdZeroDay, Lit (CHR ''T''),
      stdHour, Lit (CHR '':''), stdZeroMinute, Lit (CHR '':''), stdZeroSecond,
      stdFracSecond9 9 (CHR ''.''), stdISO8601ColonTZ]"
  by code_simp

text \<open>The zone that \<open>appendZone\<close> writes, and what \<open>parseZone\<close> reads from it.\<close>

lemma appendZone_minutes:
  assumes "0 < q" and "q < 6000"
  shows "appendZone (int q * 60) =
           [CHR ''+'', digitChar (q div 60 div 10), digitChar (q div 60 mod 10), CHR '':'',
            digitChar (q mod 60 div 10), digitChar (q mod 60 mod 10)]"
    and "appendZone (- (int q * 60)) =
           [CHR ''-'', digitChar (q div 60 div 10), digitChar (q div 60 mod 10), CHR '':'',
            digitChar (q mod 60 div 10), digitChar (q mod 60 mod 10)]"
proof -
  from assms have hlt: "q div 60 < 100"
    by simp
  have mlt: "q mod 60 < 100"
    by (rule less_trans [of _ 60]) simp_all
  have h: "int q div 60 = int (q div 60)" and m: "int q mod 60 = int (q mod 60)"
    by (simp_all add: zdiv_int zmod_int)
  from assms(1) show "appendZone (int q * 60) =
           [CHR ''+'', digitChar (q div 60 div 10), digitChar (q div 60 mod 10), CHR '':'',
            digitChar (q mod 60 div 10), digitChar (q mod 60 mod 10)]"
    by (simp add: appendZone_def h m appendInt_two [OF hlt] appendInt_two [OF mlt])
  from assms(1) show "appendZone (- (int q * 60)) =
           [CHR ''-'', digitChar (q div 60 div 10), digitChar (q div 60 mod 10), CHR '':'',
            digitChar (q mod 60 div 10), digitChar (q mod 60 mod 10)]"
    by (simp add: appendZone_def h m appendInt_two [OF hlt] appendInt_two [OF mlt])
qed

lemma offset_minutes:
  assumes "off mod 60 = 0" and "off \<noteq> 0"
  obtains q where "0 < q" and "off = int q * 60 \<or> off = - (int q * 60)"
    and "\<bar>off\<bar> = int q * 60"
proof -
  from assms(1) obtain k where k: "off = 60 * k"
    by (auto simp: mod_eq_0_iff_dvd)
  with assms(2) have "k \<noteq> 0"
    by simp
  then have "0 < nat \<bar>k\<bar>"
    by simp
  moreover from k have "off = int (nat \<bar>k\<bar>) * 60 \<or> off = - (int (nat \<bar>k\<bar>) * 60)"
    by (cases "0 \<le> k") simp_all
  moreover from k have "\<bar>off\<bar> = int (nat \<bar>k\<bar>) * 60"
    by (simp add: abs_mult)
  ultimately show ?thesis
    by (rule that)
qed

lemma appendZone_head:
  assumes "off mod 60 = 0" and "\<bar>off\<bar> < 360000"
  shows "appendZone off \<noteq> [] \<and> \<not> commaOrPeriod (hd (appendZone off))"
proof (cases "off = 0")
  case True
  then show ?thesis
    by (simp add: appendZone_def commaOrPeriod_def)
next
  case False
  with assms(1) obtain q where q: "0 < q" "off = int q * 60 \<or> off = - (int q * 60)"
    "\<bar>off\<bar> = int q * 60"
    by (rule offset_minutes)
  with assms(2) have "q < 6000"
    by simp
  with q(1,2) show ?thesis
    by (auto simp: appendZone_minutes commaOrPeriod_def)
qed

lemma int_div_mod: "int (a div k) * int k + int (a mod k) = int a"
  by (metis div_mult_mod_eq of_nat_add of_nat_mult)

lemma parseZone_minutes:
  assumes "0 < q" and "q < 1500"
    and "p_value st =
           [sign, digitChar (q div 60 div 10), digitChar (q div 60 mod 10), CHR '':'',
            digitChar (q mod 60 div 10), digitChar (q mod 60 mod 10)]"
    and "sign \<noteq> CHR ''Z''"
  shows "parseZone st =
           (if sign = CHR ''+'' then Inr (st\<lparr>p_value := [], p_zoneOffset := int q * 60\<rparr>)
            else if sign = CHR ''-''
              then Inr (st\<lparr>p_value := [], p_zoneOffset := - (int q * 60)\<rparr>)
            else Inl errBad)"
proof -
  let ?h = "q div 60" and ?m = "q mod 60"
  from assms(2) have h: "?h \<le> 24"
    by simp
  then have hd: "?h div 10 < 10" "?h mod 10 < 10"
    by simp_all
  have md: "?m div 10 < 10" "?m mod 10 < 10"
    by simp_all
  have "int (?h div 10) * 10 + int (?h mod 10) = int ?h"
    using int_div_mod [of ?h 10] by simp
  with getnum_two [OF hd, of "[]" True]
  have gh: "getnum [digitChar (?h div 10), digitChar (?h mod 10)] True = Some (int ?h, [])"
    by simp
  have "int (?m div 10) * 10 + int (?m mod 10) = int ?m"
    using int_div_mod [of ?m 10] by simp
  with getnum_two [OF md, of "[]" True]
  have gm: "getnum [digitChar (?m div 10), digitChar (?m mod 10)] True = Some (int ?m, [])"
    by simp
  have m60: "\<not> 60 < int ?m"
    by simp
  from h have h24: "\<not> 24 < int ?h"
    by simp
  have "int ?h * 60 + int ?m = int q"
    using int_div_mod [of q 60] by simp
  then have tot: "(int ?h * 60 + int ?m) * 60 = int q * 60"
    by simp
  have "parseZone st =
          (if sign = CHR ''+''
             then Inr (st\<lparr>p_value := [], p_zoneOffset := (int ?h * 60 + int ?m) * 60\<rparr>)
           else if sign = CHR ''-''
             then Inr (st\<lparr>p_value := [], p_zoneOffset := - ((int ?h * 60 + int ?m) * 60)\<rparr>)
           else Inl errBad)"
    using assms(4) h24 m60
    by (simp add: parseZone_def assms(3) gh gm del: of_nat_mult of_nat_add)
  then show ?thesis
    by (simp only: tot)
qed

lemma parseZone_appendZone:
  assumes "off mod 60 = 0" and "\<bar>off\<bar> < 90000" and "p_value st = appendZone off"
  shows "parseZone st =
           Inr (if off = 0 then st\<lparr>p_value := [], p_z := True\<rparr>
                else st\<lparr>p_value := [], p_zoneOffset := off\<rparr>)"
proof (cases "off = 0")
  case True
  with assms(3) show ?thesis
    by (simp add: parseZone_def appendZone_def)
next
  case False
  with assms(1) obtain q where q: "0 < q" "off = int q * 60 \<or> off = - (int q * 60)"
    "\<bar>off\<bar> = int q * 60"
    by (rule offset_minutes)
  with assms(2) have small: "q < 1500" "q < 6000"
    by simp_all
  from q(2) show ?thesis
  proof
    assume pos: "off = int q * 60"
    with assms(3) appendZone_minutes(1) [OF q(1) small(2)]
    have "p_value st = [CHR ''+'', digitChar (q div 60 div 10), digitChar (q div 60 mod 10),
            CHR '':'', digitChar (q mod 60 div 10), digitChar (q mod 60 mod 10)]"
      by simp
    from parseZone_minutes [OF q(1) small(1) this] False pos show ?thesis
      by simp
  next
    assume neg: "off = - (int q * 60)"
    with assms(3) appendZone_minutes(2) [OF q(1) small(2)]
    have "p_value st = [CHR ''-'', digitChar (q div 60 div 10), digitChar (q div 60 mod 10),
            CHR '':'', digitChar (q mod 60 div 10), digitChar (q mod 60 mod 10)]"
      by simp
    from parseZone_minutes [OF q(1) small(1) this] False neg show ?thesis
      by simp
  qed
qed

lemma parse_RFC3339_digits:
  fixes y1 y2 y3 y4 m1 m2 d1 d2 h1 h2 i1 i2 s1 s2 :: nat
  assumes y: "y1 < 10" "y2 < 10" "y3 < 10" "y4 < 10"
    and m: "m1 < 10" "m2 < 10" and d: "d1 < 10" "d2 < 10"
    and h: "h1 < 10" "h2 < 10" and i: "i1 < 10" "i2 < 10" and s: "s1 < 10" "s2 < 10"
    and month: "1 \<le> int m1 * 10 + int m2" "int m1 * 10 + int m2 \<le> 12"
    and day: "1 \<le> int d1 * 10 + int d2"
      "int d1 * 10 + int d2
         \<le> daysIn (int m1 * 10 + int m2) (int y1 * 1000 + int y2 * 100 + int y3 * 10 + int y4)"
    and hour: "int h1 * 10 + int h2 < 24"
    and minute: "int i1 * 10 + int i2 < 60"
    and second: "int s1 * 10 + int s2 < 60"
    and zone: "off mod 60 = 0" "\<bar>off\<bar> < 90000"
  shows "parseChunks False (layoutChunks RFC3339)
           (initState ([digitChar y1, digitChar y2, digitChar y3, digitChar y4, CHR ''-'',
                        digitChar m1, digitChar m2, CHR ''-'', digitChar d1, digitChar d2,
                        CHR ''T'', digitChar h1, digitChar h2, CHR '':'',
                        digitChar i1, digitChar i2, CHR '':'', digitChar s1, digitChar s2]
                       @ appendZone off))
         = Inr \<lparr>Year = int y1 * 1000 + int y2 * 100 + int y3 * 10 + int y4,
                Month = int m1 * 10 + int m2, Day = int d1 * 10 + int d2,
                Hour = int h1 * 10 + int h2, Minute = int i1 * 10 + int i2,
                Second = int s1 * 10 + int s2, Nanosecond = 0, Offset = off\<rparr>"
proof -
  let ?st = "\<lparr>p_value = appendZone off,
              p_year = int y1 * 1000 + int y2 * 100 + int y3 * 10 + int y4,
              p_month = int m1 * 10 + int m2, p_day = int d1 * 10 + int d2,
              p_hour = int h1 * 10 + int h2, p_min = int i1 * 10 + int i2,
              p_sec = int s1 * 10 + int s2, p_nsec = 0, p_z = False, p_zoneOffset = - 1\<rparr>"
  from zone have big: "\<bar>off\<bar> < 360000"
    by simp
  have z: "appendZone off \<noteq> []" "\<not> commaOrPeriod (hd (appendZone off))"
    using appendZone_head [OF zone(1) big] by simp_all
  have pz: "parseZone ?st =
      Inr (if off = 0 then ?st\<lparr>p_value := [], p_z := True\<rparr>
           else ?st\<lparr>p_value := [], p_zoneOffset := off\<rparr>)"
    by (rule parseZone_appendZone [OF zone]) simp
  from zone(1) have off1: "off \<noteq> - 1"
    by auto
  have sign: "digitChar y1 \<noteq> CHR ''-''" "digitChar y1 \<noteq> CHR ''+''"
    using digitChar_not_sign [OF y(1)] by simp_all
  have year: "atoi [digitChar y1, digitChar y2, digitChar y3, digitChar y4]
      = Some (int y1 * 1000 + int y2 * 100 + int y3 * 10 + int y4)"
    using y by (rule atoi_four)
  have pos: "0 \<le> int m1 * 10 + int m2" "0 \<le> int h1 * 10 + int h2"
    "0 \<le> int i1 * 10 + int i2" "0 \<le> int s1 * 10 + int s2" "0 \<le> int d1 * 10 + int d2"
    by simp_all
  show ?thesis
    using month day hour minute second off1 z(2) pos
    by (simp add: chunks_RFC3339 initState_def year getnum_two y m d h i s
          isDigit_digitChar parseSecond_def pz parseFinish_def
          del: of_nat_mult of_nat_add)
qed

lemma format_RFC3339_digits:
  fixes y m d h i s :: nat
  assumes "y < 10000" "m < 100" "d < 100" "h < 100" "i < 100" "s < 100"
  shows "time_Format RFC3339
           \<lparr>Year = int y, Month = int m, Day = int d, Hour = int h, Minute = int i,
            Second = int s, Nanosecond = n, Offset = off\<rparr>
         = [digitChar (y div 1000), digitChar (y div 100 mod 10), digitChar (y div 10 mod 10),
            digitChar (y mod 10), CHR ''-'', digitChar (m div 10), digitChar (m mod 10),
            CHR ''-'', digitChar (d div 10), digitChar (d mod 10), CHR ''T'',
            digitChar (h div 10), digitChar (h mod 10), CHR '':'',
            digitChar (i div 10), digitChar (i mod 10), CHR '':'',
            digitChar (s div 10), digitChar (s mod 10)] @ appendZone off"
  using assms by (simp add: time_Format_def chunks_RFC3339 appendInt_four appendInt_two)

lemma four_digits_value:
  "int (y div 1000) * 1000 + int (y div 100 mod 10) * 100 + int (y div 10 mod 10) * 10
     + int (y mod 10) = int y"
proof -
  have a: "y div 10 div 10 = y div 100" "y div 100 div 10 = y div 1000"
    by (simp_all add: div_mult2_eq [symmetric])
  have "int y = int (y div 10) * 10 + int (y mod 10)"
    using int_div_mod [of y 10] by simp
  moreover have "int (y div 10) = int (y div 100) * 10 + int (y div 10 mod 10)"
    using int_div_mod [of "y div 10" 10] a by simp
  moreover have "int (y div 100) = int (y div 1000) * 10 + int (y div 100 mod 10)"
    using int_div_mod [of "y div 100" 10] a by simp
  ultimately show ?thesis
    by linarith
qed

lemma two_digits_value: "int (m div 10) * 10 + int (m mod 10) = int m"
  using int_div_mod [of m 10] by simp

lemma parse_format_RFC3339:
  assumes "validTime t" and "\<bar>Offset t\<bar> < 90000"
  shows "time_Parse RFC3339 (time_Format RFC3339 t) = Inr (t\<lparr>Nanosecond := 0\<rparr>)"
proof -
  from assms(1) have nonneg: "0 \<le> Year t" "0 \<le> Month t" "0 \<le> Day t" "0 \<le> Hour t"
    "0 \<le> Minute t" "0 \<le> Second t"
    by (simp_all add: validTime_def)
  define y m d h i s where "y = nat (Year t)" and "m = nat (Month t)" and "d = nat (Day t)"
    and "h = nat (Hour t)" and "i = nat (Minute t)" and "s = nat (Second t)"
  with nonneg have
    f: "Year t = int y" "Month t = int m" "Day t = int d" "Hour t = int h"
       "Minute t = int i" "Second t = int s"
    by simp_all
  have t: "t = \<lparr>Year = int y, Month = int m, Day = int d, Hour = int h, Minute = int i,
                 Second = int s, Nanosecond = Nanosecond t, Offset = Offset t\<rparr>"
    using f by (cases t) simp
  from assms(1) f have r: "y < 10000" "1 \<le> m" "m \<le> 12" "1 \<le> d"
    "int d \<le> daysIn (int m) (int y)" "h < 24" "i < 60" "s < 60"
    and zone: "Offset t mod 60 = 0"
    by (simp_all add: validTime_def)
  from r(5) have "d \<le> 31"
    by (simp add: daysIn_def split: if_splits)
  with r have lt: "y < 10000" "m < 100" "d < 100" "h < 100" "i < 100" "s < 100"
    by simp_all
  have fmt: "time_Format RFC3339 t
         = [digitChar (y div 1000), digitChar (y div 100 mod 10), digitChar (y div 10 mod 10),
            digitChar (y mod 10), CHR ''-'', digitChar (m div 10), digitChar (m mod 10),
            CHR ''-'', digitChar (d div 10), digitChar (d mod 10), CHR ''T'',
            digitChar (h div 10), digitChar (h mod 10), CHR '':'',
            digitChar (i div 10), digitChar (i mod 10), CHR '':'',
            digitChar (s div 10), digitChar (s mod 10)] @ appendZone (Offset t)"
    by (subst t) (rule format_RFC3339_digits [OF lt])
  from lt have dg: "y div 1000 < 10" "y div 100 mod 10 < 10" "y div 10 mod 10 < 10" "y mod 10 < 10"
    "m div 10 < 10" "m mod 10 < 10" "d div 10 < 10" "d mod 10 < 10" "h div 10 < 10"
    "h mod 10 < 10" "i div 10 < 10" "i mod 10 < 10" "s div 10 < 10" "s mod 10 < 10"
    by simp_all
  have c: "1 \<le> int (m div 10) * 10 + int (m mod 10)"
    "int (m div 10) * 10 + int (m mod 10) \<le> 12"
    "1 \<le> int (d div 10) * 10 + int (d mod 10)"
    "int (d div 10) * 10 + int (d mod 10)
       \<le> daysIn (int (m div 10) * 10 + int (m mod 10))
           (int (y div 1000) * 1000 + int (y div 100 mod 10) * 100 + int (y div 10 mod 10) * 10
            + int (y mod 10))"
    "int (h div 10) * 10 + int (h mod 10) < 24"
    "int (i div 10) * 10 + int (i mod 10) < 60"
    "int (s div 10) * 10 + int (s mod 10) < 60"
    unfolding two_digits_value four_digits_value using r by simp_all
  have "time_Parse RFC3339 (time_Format RFC3339 t)
      = Inr \<lparr>Year = int (y div 1000) * 1000 + int (y div 100 mod 10) * 100
                 + int (y div 10 mod 10) * 10 + int (y mod 10),
             Month = int (m div 10) * 10 + int (m mod 10),
             Day = int (d div 10) * 10 + int (d mod 10),
             Hour = int (h div 10) * 10 + int (h mod 10),
             Minute = int (i div 10) * 10 + int (i mod 10),
             Second = int (s div 10) * 10 + int (s mod 10), Nanosecond = 0,
             Offset = Offset t\<rparr>"
    unfolding time_Parse_def fmt
    by (intro parse_RFC3339_digits dg c zone assms(2))
  also have "\<dots> = Inr \<lparr>Year = int y, Month = int m, Day = int d, Hour = int h,
                 Minute = int i, Second = int s, Nanosecond = 0, Offset = Offset t\<rparr>"
    by (simp only: two_digits_value four_digits_value)
  also have "\<lparr>Year = int y, Month = int m, Day = int d, Hour = int h,
                 Minute = int i, Second = int s, Nanosecond = 0, Offset = Offset t\<rparr>
             = t\<lparr>Nanosecond := 0\<rparr>"
    by (subst (2) t) simp
  finally show ?thesis .
qed

lemma format_ignores_nanoseconds:
  "time_Format RFC3339 (t\<lparr>Nanosecond := n\<rparr>) = time_Format RFC3339 t"
  by (simp add: time_Format_def chunks_RFC3339)

lemma format_Nano_whole_second:
  "Nanosecond t = 0 \<Longrightarrow> time_Format RFC3339Nano t = time_Format RFC3339 t"
  by (simp add: time_Format_def chunks_RFC3339 chunks_RFC3339Nano appendNano_def)

section \<open>The table and the repository\<close>

lemma sql_length_from_le: "sql_length_from multi s \<le> length s"
  by (induction s arbitrary: multi) (auto simp: le_SucI)

lemma sql_length_le: "sql_length s \<le> length s"
  by (simp add: sql_length_def sql_length_from_le)

lemma check_title_short: "length title \<le> 100 \<Longrightarrow> check_title title"
  using sql_length_le [of title] by (simp add: check_title_def)

lemma unique_row_split:
  assumes "distinct (map row_id db)" and "ident \<in> row_id ` set db"
  obtains pre r post where "db = pre @ r # post" and "row_id r = ident"
    and "\<forall>x \<in> set pre. row_id x \<noteq> ident" and "\<forall>x \<in> set post. row_id x \<noteq> ident"
proof -
  from assms(2) obtain r where "r \<in> set db" and r: "row_id r = ident"
    by auto
  then obtain pre post where db: "db = pre @ r # post"
    by (auto dest: split_list)
  with assms(1) have "row_id r \<notin> row_id ` set pre" and "row_id r \<notin> row_id ` set post"
    by auto
  with r have "\<forall>x \<in> set pre. row_id x \<noteq> ident"
    and "\<forall>x \<in> set post. row_id x \<noteq> ident"
    by (auto simp: image_iff)
  with db r show ?thesis
    by (rule that)
qed

lemma filter_none: "\<forall>x \<in> set xs. \<not> P x \<Longrightarrow> filter P xs = []"
  by (induction xs) simp_all

lemma filter_all: "\<forall>x \<in> set xs. P x \<Longrightarrow> filter P xs = xs"
  by (induction xs) simp_all

lemma map_unchanged: "\<forall>x \<in> set xs. f x = x \<Longrightarrow> map f xs = xs"
  by (induction xs) simp_all

lemma exec_update_unique:
  assumes "db = pre @ r # post" and "row_id r = ident"
    and "\<forall>x \<in> set pre. row_id x \<noteq> ident" and "\<forall>x \<in> set post. row_id x \<noteq> ident"
    and "check_title title"
  shows "exec_update db title description start_time end_time ident =
           Inr (pre @ r\<lparr>row_title := title, row_description := description,
                         row_start_time := start_time, row_end_time := end_time\<rparr> # post, 1)"
proof -
  let ?f = "\<lambda>r. if row_id r = ident
                   then r\<lparr>row_title := title, row_description := description,
                          row_start_time := start_time, row_end_time := end_time\<rparr>
                   else r"
  from assms(3) have "map ?f pre = pre" "filter (\<lambda>r. row_id r = ident) pre = []"
    by (simp_all add: map_unchanged filter_none)
  moreover from assms(4) have "map ?f post = post" "filter (\<lambda>r. row_id r = ident) post = []"
    by (simp_all add: map_unchanged filter_none)
  ultimately show ?thesis
    using assms(1,2,5) by (simp add: exec_update_def)
qed

lemma exec_delete_unique:
  assumes "db = pre @ r # post" and "row_id r = ident"
    and "\<forall>x \<in> set pre. row_id x \<noteq> ident" and "\<forall>x \<in> set post. row_id x \<noteq> ident"
  shows "exec_delete db ident = (pre @ post, 1)"
proof -
  from assms(3) have "filter (\<lambda>r. row_id r \<noteq> ident) pre = pre"
    "filter (\<lambda>r. row_id r = ident) pre = []"
    by (simp_all add: filter_all filter_none)
  moreover from assms(4) have "filter (\<lambda>r. row_id r \<noteq> ident) post = post"
    "filter (\<lambda>r. row_id r = ident) post = []"
    by (simp_all add: filter_all filter_none)
  ultimately show ?thesis
    using assms(1,2) by (simp add: exec_delete_def)
qed

lemma no_match_iff: "filter (\<lambda>r. row_id r = ident) db = [] \<longleftrightarrow> ident \<notin> row_id ` set db"
  by (auto simp: filter_empty_conv)

lemma UpdateEvent_NotFound_iff:
  "fst (UpdateEvent db event) = Some EventNotFound
     \<longleftrightarrow> uuid_String (ev_ID event) \<notin> row_id ` set db"
proof -
  let ?k = "uuid_String (ev_ID event)"
  show ?thesis
  proof (cases "?k \<in> row_id ` set db")
    case True
    then have "filter (\<lambda>r. row_id r = ?k) db \<noteq> []"
      by (simp add: no_match_iff)
    with True show ?thesis
      by (auto simp: UpdateEvent_def exec_update_def)
  next
    case False
    then have "filter (\<lambda>r. row_id r = ?k) db = []"
      by (simp add: no_match_iff)
    moreover from False have "\<not> (\<exists>r \<in> set db. row_id r = ?k)"
      by (auto simp: image_iff)
    ultimately show ?thesis
      using False by (simp add: UpdateEvent_def exec_update_def)
  qed
qed

lemma DeleteEvent_NotFound_iff:
  "fst (DeleteEvent db ident) = Some EventNotFound
     \<longleftrightarrow> uuid_String ident \<notin> row_id ` set db"
  using no_match_iff [of "uuid_String ident" db]
  by (auto simp: DeleteEvent_def exec_delete_def)

lemma UpdateEvent_failure_keeps:
  "fst (UpdateEvent db event) \<noteq> None \<Longrightarrow> snd (UpdateEvent db event) = db"
proof -
  let ?k = "uuid_String (ev_ID event)"
  assume fail: "fst (UpdateEvent db event) \<noteq> None"
  show ?thesis
  proof (cases "(\<exists>r \<in> set db. row_id r = ?k) \<and> \<not> check_title (ev_Title event)")
    case True
    then show ?thesis
      by (simp add: UpdateEvent_def exec_update_def)
  next
    case False
    with fail have none: "filter (\<lambda>r. row_id r = ?k) db = []"
      by (auto simp: UpdateEvent_def exec_update_def split: if_splits)
    then have "\<forall>x \<in> set db. row_id x \<noteq> ?k"
      by (simp add: filter_empty_conv)
    then have "map (\<lambda>r. if row_id r = ?k
                 then r\<lparr>row_title := ev_Title event, row_description := ev_Description event,
                        row_start_time := time_Format RFC3339 (ev_StartTime event),
                        row_end_time := time_Format RFC3339 (ev_EndTime event)\<rparr>
                 else r) db = db"
      by (simp add: map_unchanged)
    with False none show ?thesis
      by (simp add: UpdateEvent_def exec_update_def)
  qed
qed

lemma DeleteEvent_failure_keeps:
  "fst (DeleteEvent db ident) \<noteq> None \<Longrightarrow> snd (DeleteEvent db ident) = db"
proof -
  assume "fst (DeleteEvent db ident) \<noteq> None"
  then have "filter (\<lambda>r. row_id r = uuid_String ident) db = []"
    by (auto simp: DeleteEvent_def exec_delete_def split: if_splits)
  then have "\<forall>x \<in> set db. row_id x \<noteq> uuid_String ident"
    by (simp add: filter_empty_conv)
  then show ?thesis
    by (simp add: DeleteEvent_def exec_delete_def filter_all)
qed

text \<open>
  C8.  In a table whose identifiers are pairwise different, \<open>UpdateEvent\<close> and
  \<open>DeleteEvent\<close> fail with \<open>event not found\<close> exactly when no row has the given
  identifier.  When they succeed the statement has changed exactly one row: the update
  has replaced the title, the description and the two times of that row and has left its
  identifier and creation time and all other rows as they were, the delete has removed
  that row and no other.  When they fail the table is unchanged.
\<close>

theorem Update_Delete_NotFound:
  assumes "distinct (map row_id db)"
  shows "(fst (UpdateEvent db event) = Some EventNotFound
            \<longleftrightarrow> uuid_String (ev_ID event) \<notin> row_id ` set db)
       \<and> (fst (DeleteEvent db ident) = Some EventNotFound
            \<longleftrightarrow> uuid_String ident \<notin> row_id ` set db)
       \<and> (fst (UpdateEvent db event) = None \<longrightarrow>
            (\<exists>pre r post.
               db = pre @ r # post \<and> row_id r = uuid_String (ev_ID event)
               \<and> exec_update db (ev_Title event) (ev_Description event)
                     (time_Format RFC3339 (ev_StartTime event))
                     (time_Format RFC3339 (ev_EndTime event)) (uuid_String (ev_ID event))
                   = Inr (snd (UpdateEvent db event), 1)
               \<and> snd (UpdateEvent db event)
                   = pre @ r\<lparr>row_title := ev_Title event,
                              row_description := ev_Description event,
                              row_start_time := time_Format RFC3339 (ev_StartTime event),
                              row_end_time := time_Format RFC3339 (ev_EndTime event)\<rparr> # post))
       \<and> (fst (DeleteEvent db ident) = None \<longrightarrow>
            (\<exists>pre r post.
               db = pre @ r # post \<and> row_id r = uuid_String ident
               \<and> exec_delete db (uuid_String ident) = (snd (DeleteEvent db ident), 1)
               \<and> snd (DeleteEvent db ident) = pre @ post))
       \<and> (fst (UpdateEvent db event) \<noteq> None \<longrightarrow> snd (UpdateEvent db event) = db)
       \<and> (fst (DeleteEvent db ident) \<noteq> None \<longrightarrow> snd (DeleteEvent db ident) = db)"
proof (intro conjI impI)
  show "fst (UpdateEvent db event) = Some EventNotFound
          \<longleftrightarrow> uuid_String (ev_ID event) \<notin> row_id ` set db"
    by (rule UpdateEvent_NotFound_iff)
  show "fst (DeleteEvent db ident) = Some EventNotFound
          \<longleftrightarrow> uuid_String ident \<notin> row_id ` set db"
    by (rule DeleteEvent_NotFound_iff)
next
  let ?k = "uuid_String (ev_ID event)"
  assume ok: "fst (UpdateEvent db event) = None"
  then have "fst (UpdateEvent db event) \<noteq> Some EventNotFound"
    by simp
  then have "?k \<in> row_id ` set db"
    by (simp add: UpdateEvent_NotFound_iff)
  with assms obtain pre r post where s: "db = pre @ r # post" "row_id r = ?k"
    "\<forall>x \<in> set pre. row_id x \<noteq> ?k" "\<forall>x \<in> set post. row_id x \<noteq> ?k"
    by (rule unique_row_split)
  from s(1,2) have "\<exists>r \<in> set db. row_id r = ?k"
    by auto
  with ok have "check_title (ev_Title event)"
    by (auto simp: UpdateEvent_def exec_update_def split: if_splits)
  from exec_update_unique [OF s this]
  have ex: "exec_update db (ev_Title event) (ev_Description event)
              (time_Format RFC3339 (ev_StartTime event))
              (time_Format RFC3339 (ev_EndTime event)) ?k
            = Inr (pre @ r\<lparr>row_title := ev_Title event,
                             row_description := ev_Description event,
                             row_start_time := time_Format RFC3339 (ev_StartTime event),
                             row_end_time := time_Format RFC3339 (ev_EndTime event)\<rparr> # post, 1)" .
  then have "snd (UpdateEvent db event)
      = pre @ r\<lparr>row_title := ev_Title event, row_description := ev_Description event,
                 row_start_time := time_Format RFC3339 (ev_StartTime event),
                 row_end_time := time_Format RFC3339 (ev_EndTime event)\<rparr> # post"
    by (simp add: UpdateEvent_def)
  with ex s(1,2) show "\<exists>pre r post.
       db = pre @ r # post \<and> row_id r = ?k
       \<and> exec_update db (ev_Title event) (ev_Description event)
             (time_Format RFC3339 (ev_StartTime event))
             (time_Format RFC3339 (ev_EndTime event)) ?k
           = Inr (snd (UpdateEvent db event), 1)
       \<and> snd (UpdateEvent db event)
           = pre @ r\<lparr>row_title := ev_Title event, row_description := ev_Description event,
                      row_start_time := time_Format RFC3339 (ev_StartTime event),
                      row_end_time := time_Format RFC3339 (ev_EndTime event)\<rparr> # post"
    by auto
next
  let ?k = "uuid_String ident"
  assume "fst (DeleteEvent db ident) = None"
  then have "fst (DeleteEvent db ident) \<noteq> Some EventNotFound"
    by simp
  then have "?k \<in> row_id ` set db"
    by (simp add: DeleteEvent_NotFound_iff)
  with assms obtain pre r post where s: "db = pre @ r # post" "row_id r = ?k"
    "\<forall>x \<in> set pre. row_id x \<noteq> ?k" "\<forall>x \<in> set post. row_id x \<noteq> ?k"
    by (rule unique_row_split)
  from exec_delete_unique [OF s] have ex: "exec_delete db ?k = (pre @ post, 1)" .
  then have "snd (DeleteEvent db ident) = pre @ post"
    by (simp add: DeleteEvent_def)
  with ex s(1,2) show "\<exists>pre r post.
       db = pre @ r # post \<and> row_id r = ?k
       \<and> exec_delete db ?k = (snd (DeleteEvent db ident), 1)
       \<and> snd (DeleteEvent db ident) = pre @ post"
    by auto
next
  assume "fst (UpdateEvent db event) \<noteq> None"
  then show "snd (UpdateEvent db event) = db"
    by (rule UpdateEvent_failure_keeps)
next
  assume "fst (DeleteEvent db ident) \<noteq> None"
  then show "snd (DeleteEvent db ident) = db"
    by (rule DeleteEvent_failure_keeps)
qed

theorem Update_Delete_NotFound_witness:
  "fst (DeleteEvent
          [\<lparr>row_id = ''123e4567-e89b-12d3-a456-426614174000'', row_title = ''A'',
            row_description = None, row_start_time = ''2026-01-16T09:00:00Z'',
            row_end_time = ''2026-01-16T10:00:00Z'', row_created_at = ''2026-01-15T14:30:00Z''\<rparr>,
           \<lparr>row_id = ''987fcdeb-51a2-43f7-b123-456789abcdef'', row_title = ''B'',
            row_description = Some ''x'', row_start_time = ''2026-01-17T09:00:00Z'',
            row_end_time = ''2026-01-17T10:00:00Z'', row_created_at = ''2026-01-15T15:00:00Z''\<rparr>]
          [0x98, 0x7f, 0xcd, 0xeb, 0x51, 0xa2, 0x43, 0xf7, 0xb1, 0x23, 0x45, 0x67, 0x89, 0xab,
           0xcd, 0xef]) \<noteq> Some EventNotFound
   \<and> fst (DeleteEvent
          [\<lparr>row_id = ''123e4567-e89b-12d3-a456-426614174000'', row_title = ''A'',
            row_description = None, row_start_time = ''2026-01-16T09:00:00Z'',
            row_end_time = ''2026-01-16T10:00:00Z'', row_created_at = ''2026-01-15T14:30:00Z''\<rparr>,
           \<lparr>row_id = ''987fcdeb-51a2-43f7-b123-456789abcdef'', row_title = ''B'',
            row_description = Some ''x'', row_start_time = ''2026-01-17T09:00:00Z'',
            row_end_time = ''2026-01-17T10:00:00Z'', row_created_at = ''2026-01-15T15:00:00Z''\<rparr>]
          (replicate 16 0)) = Some EventNotFound"
proof -
  let ?db = "[\<lparr>row_id = ''123e4567-e89b-12d3-a456-426614174000'', row_title = ''A'',
            row_description = None, row_start_time = ''2026-01-16T09:00:00Z'',
            row_end_time = ''2026-01-16T10:00:00Z'', row_created_at = ''2026-01-15T14:30:00Z''\<rparr>,
           \<lparr>row_id = ''987fcdeb-51a2-43f7-b123-456789abcdef'', row_title = ''B'',
            row_description = Some ''x'', row_start_time = ''2026-01-17T09:00:00Z'',
            row_end_time = ''2026-01-17T10:00:00Z'', row_created_at = ''2026-01-15T15:00:00Z''\<rparr>]"
  let ?b = "[0x98, 0x7f, 0xcd, 0xeb, 0x51, 0xa2, 0x43, 0xf7, 0xb1, 0x23, 0x45, 0x67, 0x89, 0xab,
           0xcd, 0xef] :: UUID"
  have d: "distinct (map row_id ?db)"
    by simp
  have sb: "uuid_String ?b = ''987fcdeb-51a2-43f7-b123-456789abcdef''"
    by code_simp
  have sn: "uuid_String (replicate 16 0) = ''00000000-0000-0000-0000-000000000000''"
    by code_simp
  from Update_Delete_NotFound [OF d, of undefined ?b]
  have "fst (DeleteEvent ?db ?b) \<noteq> Some EventNotFound"
    by (simp add: sb)
  moreover from Update_Delete_NotFound [OF d, of undefined "replicate 16 0"]
  have "fst (DeleteEvent ?db (replicate 16 0)) = Some EventNotFound"
    by (simp add: sn)
  ultimately show ?thesis
    by simp
qed

text \<open>
  C7, as the code has it.  \<open>InsertEvent\<close> adds the row of the event exactly when the
  identifier (the one of the event, or the new one when the event has none) is not yet in
  the table and the title passes the check of the table, \<open>length(title) <= 100\<close>.
  Otherwise it returns the error of the statement wrapped as \<open>failed to insert
  event\<close>, the violation of the check when the title fails it and the violation of the
  primary key when only the identifier is taken, and the table is unchanged.
\<close>

theorem InsertEvent_outcome:
  assumes "InsertEvent newID now db event = (err, event', db')"
  shows "ev_ID event' = (if ev_ID event = uuid_Nil then newID else ev_ID event)
       \<and> (err = None \<longleftrightarrow>
            check_title (ev_Title event) \<and> uuid_String (ev_ID event') \<notin> row_id ` set db)
       \<and> (err = None \<longrightarrow> db' = db @ [eventRow event'])
       \<and> (err \<noteq> None \<longrightarrow> db' = db)
       \<and> (\<not> check_title (ev_Title event) \<longrightarrow> err = Some (FailedToInsert ConstraintCheck))
       \<and> (check_title (ev_Title event) \<and> uuid_String (ev_ID event') \<in> row_id ` set db
            \<longrightarrow> err = Some (FailedToInsert ConstraintPrimaryKey))"
proof -
  define event1 where "event1 = (if ev_ID event = uuid_Nil then event\<lparr>ev_ID := newID\<rparr> else event)"
  define event2 where
    "event2 = (if Time_IsZero (ev_CreatedAt event1) then event1\<lparr>ev_CreatedAt := now\<rparr> else event1)"
  have run: "InsertEvent newID now db event =
      (case exec_insert db (eventRow event2) of
         Inl e \<Rightarrow> (Some (FailedToInsert e), event2, db)
       | Inr d \<Rightarrow> (None, event2, d))"
    unfolding InsertEvent_def Let_def event2_def event1_def by (rule refl)
  have ident: "ev_ID event2 = (if ev_ID event = uuid_Nil then newID else ev_ID event)"
    and title: "ev_Title event2 = ev_Title event"
    by (simp_all add: event1_def event2_def)
  from run assms have e2: "event' = event2"
    by (auto split: sum.splits)
  have rid: "row_id (eventRow event2) = uuid_String (ev_ID event2)"
    and rt: "row_title (eventRow event2) = ev_Title event"
    by (simp_all add: eventRow_def title)
  show ?thesis
    using run assms
    unfolding e2 exec_insert_def rid rt ident
    by (auto split: if_splits)
qed

theorem InsertEvent_outcome_witness:
  "fst (InsertEvent
          [0x98, 0x7f, 0xcd, 0xeb, 0x51, 0xa2, 0x43, 0xf7, 0xb1, 0x23, 0x45, 0x67, 0x89, 0xab,
           0xcd, 0xef]
          \<lparr>Year = 2026, Month = 1, Day = 15, Hour = 14, Minute = 30, Second = 0,
           Nanosecond = 0, Offset = 0\<rparr>
          [\<lparr>row_id = ''987fcdeb-51a2-43f7-b123-456789abcdef'', row_title = ''B'',
            row_description = Some ''x'', row_start_time = ''2026-01-17T09:00:00Z'',
            row_end_time = ''2026-01-17T10:00:00Z'', row_created_at = ''2026-01-15T15:00:00Z''\<rparr>]
          \<lparr>ev_ID = uuid_Nil, ev_Title = ''A'', ev_Description = None,
           ev_StartTime = zeroTime, ev_EndTime = zeroTime, ev_CreatedAt = zeroTime\<rparr>)
     = Some (FailedToInsert ConstraintPrimaryKey)"
proof -
  let ?id = "[0x98, 0x7f, 0xcd, 0xeb, 0x51, 0xa2, 0x43, 0xf7, 0xb1, 0x23, 0x45, 0x67, 0x89,
              0xab, 0xcd, 0xef] :: UUID"
  let ?now = "\<lparr>Year = 2026, Month = 1, Day = 15, Hour = 14, Minute = 30, Second = 0,
           Nanosecond = 0, Offset = 0\<rparr>"
  let ?db = "[\<lparr>row_id = ''987fcdeb-51a2-43f7-b123-456789abcdef'', row_title = ''B'',
            row_description = Some ''x'', row_start_time = ''2026-01-17T09:00:00Z'',
            row_end_time = ''2026-01-17T10:00:00Z'', row_created_at = ''2026-01-15T15:00:00Z''\<rparr>]"
  let ?ev = "\<lparr>ev_ID = uuid_Nil, ev_Title = ''A'', ev_Description = None,
           ev_StartTime = zeroTime, ev_EndTime = zeroTime, ev_CreatedAt = zeroTime\<rparr>"
  obtain err event' db' where run: "InsertEvent ?id ?now ?db ?ev = (err, event', db')"
    by (cases "InsertEvent ?id ?now ?db ?ev")
  have s: "uuid_String ?id = ''987fcdeb-51a2-43f7-b123-456789abcdef''"
    by code_simp
  have c: "check_title ''A''"
    by code_simp
  from InsertEvent_outcome [OF run] s c have "err = Some (FailedToInsert ConstraintPrimaryKey)"
    by simp
  with run show ?thesis
    by simp
qed

theorem InsertEvent_check_counterexample:
  "fst (InsertEvent
          [0x98, 0x7f, 0xcd, 0xeb, 0x51, 0xa2, 0x43, 0xf7, 0xb1, 0x23, 0x45, 0x67, 0x89, 0xab,
           0xcd, 0xef]
          \<lparr>Year = 2026, Month = 1, Day = 15, Hour = 14, Minute = 30, Second = 0,
           Nanosecond = 0, Offset = 0\<rparr>
          []
          \<lparr>ev_ID = uuid_Nil, ev_Title = replicate 101 (CHR ''a''), ev_Description = None,
           ev_StartTime = zeroTime, ev_EndTime = zeroTime, ev_CreatedAt = zeroTime\<rparr>)
     = Some (FailedToInsert ConstraintCheck)
   \<and> uuid_String [0x98, 0x7f, 0xcd, 0xeb, 0x51, 0xa2, 0x43, 0xf7, 0xb1, 0x23, 0x45, 0x67, 0x89,
                  0xab, 0xcd, 0xef] \<notin> row_id ` set ([] :: Row list)"
proof -
  have "\<not> check_title (replicate 101 (CHR ''a''))"
    by code_simp
  then show ?thesis
    by (simp add: InsertEvent_def exec_insert_def eventRow_def Let_def)
qed

end
